theory Spec2Isabelle
  imports Main "HOL-Library.Char_ord" "HOL-Library.List_Lexorder" "HOL-Library.Product_Lexorder"
begin

section \<open>The timetable model of solver3.py\<close>

text \<open>
  \<^verbatim>\<open>solve_timetable_debug\<close> builds a CP-SAT model (boolean decision variables, one
  bounded slack variable per constraint instance, linear constraints, the sum of the
  slacks as objective), hands it to the external solver and, when the solver reports
  OPTIMAL or FEASIBLE, prints the violated constraints and returns the timetable.

  The embedding follows the source statement by statement. The model object of the
  solver library is a record that is threaded through; a variable is its index in the
  model's variable list; the dictionary \<^verbatim>\<open>x\<close> is a map from keys to variables, and a
  lookup of a missing key is the \<^verbatim>\<open>KeyError\<close> of Python. The solver itself is a
  parameter: a function from the model to a status and a valuation.
\<close>

subsection \<open>Input data\<close>

type_synonym room = string
type_synonym day = string
type_synonym slot = int

record subject_info =
  sessions_per_week :: int
  teacher :: string
  batch :: string

record teacher_info =
  max_load :: int

text \<open>A dictionary is an association list in insertion order (Python keeps it).\<close>

type_synonym subjects = "(string \<times> subject_info) list"
type_synonym teachers = "(string \<times> teacher_info) list"

text \<open>The key of a decision variable: (batch, subject, day, slot, room).\<close>

type_synonym key = "string \<times> string \<times> day \<times> slot \<times> room"

definition days :: "day list" where
  "days = [''Mon'', ''Tue'', ''Wed'', ''Thu'', ''Fri'']"

definition slots :: "slot list" where
  "slots = [1, 2, 3, 4, 5]"

subsection \<open>Formatting integers (f-strings)\<close>

definition digit_char :: "nat \<Rightarrow> char" where
  "digit_char n = char_of (48 + n)"

function str_nat :: "nat \<Rightarrow> string" where
  "str_nat n = (if n < 10 then [digit_char n] else str_nat (n div 10) @ [digit_char (n mod 10)])"
  by pat_completeness auto
termination
  by (relation "measure id") auto

declare str_nat.simps [simp del]

definition str_int :: "int \<Rightarrow> string" where
  "str_int i = (if i < 0 then CHR ''-'' # str_nat (nat (- i)) else str_nat (nat i))"

subsection \<open>The constraint model\<close>

type_synonym var = nat

record int_var =
  lb :: int
  ub :: int
  name :: string

text \<open>A linear expression is a sum of variables and integer constants.\<close>

datatype summand = V var | C int

datatype constr = Eq "summand list" "summand list" | Le "summand list" "summand list"

datatype objective = NoObjective | MinimizeObj "summand list"

record cp_model =
  variables :: "int_var list"
  constraints :: "constr list"
  objective :: objective

definition CpModel :: cp_model where
  "CpModel = \<lparr>variables = [], constraints = [], objective = NoObjective\<rparr>"

definition NewIntVar :: "int \<Rightarrow> int \<Rightarrow> string \<Rightarrow> cp_model \<Rightarrow> var \<times> cp_model" where
  "NewIntVar l u nm m =
     (length (variables m), m\<lparr>variables := variables m @ [\<lparr>lb = l, ub = u, name = nm\<rparr>]\<rparr>)"

definition NewBoolVar :: "string \<Rightarrow> cp_model \<Rightarrow> var \<times> cp_model" where
  "NewBoolVar nm m = NewIntVar 0 1 nm m"

definition Add :: "constr \<Rightarrow> cp_model \<Rightarrow> cp_model" where
  "Add c m = m\<lparr>constraints := constraints m @ [c]\<rparr>"

definition Minimize :: "summand list \<Rightarrow> cp_model \<Rightarrow> cp_model" where
  "Minimize e m = m\<lparr>objective := MinimizeObj e\<rparr>"

subsection \<open>What a model means\<close>

text \<open>
  An assignment gives every variable an integer. It satisfies the model when every
  variable lies in its declared domain and every constraint holds.
\<close>

fun eval_summand :: "(var \<Rightarrow> int) \<Rightarrow> summand \<Rightarrow> int" where
  "eval_summand a (V v) = a v"
| "eval_summand a (C c) = c"

definition eval_sum :: "(var \<Rightarrow> int) \<Rightarrow> summand list \<Rightarrow> int" where
  "eval_sum a ts = sum_list (map (eval_summand a) ts)"

fun holds :: "(var \<Rightarrow> int) \<Rightarrow> constr \<Rightarrow> bool" where
  "holds a (Eq l r) = (eval_sum a l = eval_sum a r)"
| "holds a (Le l r) = (eval_sum a l \<le> eval_sum a r)"

definition in_domain :: "(var \<Rightarrow> int) \<Rightarrow> int_var list \<Rightarrow> bool" where
  "in_domain a vs = list_all (\<lambda>(i, d). lb d \<le> a i \<and> a i \<le> ub d) (enumerate 0 vs)"

definition satisfies :: "cp_model \<Rightarrow> (var \<Rightarrow> int) \<Rightarrow> bool" where
  "satisfies m a = (in_domain a (variables m) \<and> list_all (holds a) (constraints m))"

definition feasible :: "cp_model \<Rightarrow> bool" where
  "feasible m = (\<exists>a. satisfies m a)"

subsection \<open>Errors and loops\<close>

datatype error = KeyError key | KeyError_column string | Int64Error int

text \<open>
  The solver library holds the integer constants of a constraint as 64-bit integers. A
  Python integer strictly between \<open>-2^63\<close> and \<open>2^63 - 1\<close> is taken as it is. Any other
  one is not: the library raises \<^verbatim>\<open>TypeError\<close> when it does not fit 64 bits, raises
  \<^verbatim>\<open>ValueError\<close> at \<open>2^63 - 1\<close>, and wraps around at \<open>-2^63\<close>. The model gives all of
  these the one outcome \<open>Int64Error\<close> and follows such a run no further: a model is
  built only from constants that the library takes as written.
\<close>

definition int64_ok :: "int \<Rightarrow> bool" where
  "int64_ok c = (- (2 ^ 63) < c \<and> c < 2 ^ 63 - 1)"

definition bind_err :: "error + 'a \<Rightarrow> ('a \<Rightarrow> error + 'b) \<Rightarrow> error + 'b" where
  "bind_err r f = (case r of Inl e \<Rightarrow> Inl e | Inr v \<Rightarrow> f v)"

text \<open>A \<^verbatim>\<open>for\<close> loop whose body may raise: the first error ends the loop.\<close>

fun for_each :: "('a \<Rightarrow> 's \<Rightarrow> error + 's) \<Rightarrow> 'a list \<Rightarrow> 's \<Rightarrow> error + 's" where
  "for_each f [] st = Inr st"
| "for_each f (a # as) st = (case f a st of Inl e \<Rightarrow> Inl e | Inr st' \<Rightarrow> for_each f as st')"

text \<open>\<^verbatim>\<open>x[k]\<close>, and the generator \<^verbatim>\<open>x[k] for k in ...\<close> that \<^verbatim>\<open>sum\<close> consumes.\<close>

definition lookup :: "(key \<rightharpoonup> var) \<Rightarrow> key \<Rightarrow> error + var" where
  "lookup x k = (case x k of None \<Rightarrow> Inl (KeyError k) | Some v \<Rightarrow> Inr v)"

fun lookup_all :: "(key \<rightharpoonup> var) \<Rightarrow> key list \<Rightarrow> error + var list" where
  "lookup_all x [] = Inr []"
| "lookup_all x (k # ks) =
     (case lookup x k of
        Inl e \<Rightarrow> Inl e
      | Inr v \<Rightarrow> (case lookup_all x ks of Inl e \<Rightarrow> Inl e | Inr vs \<Rightarrow> Inr (v # vs)))"

subsection \<open>Decision variables (lines 19-26)\<close>

definition var_keys :: "room list \<Rightarrow> subjects \<Rightarrow> key list" where
  "var_keys rooms subjs =
     [(batch info, subj, d, s, r). (subj, info) \<leftarrow> subjs, d \<leftarrow> days, s \<leftarrow> slots, r \<leftarrow> rooms]"

definition x_name :: "key \<Rightarrow> string" where
  "x_name = (\<lambda>(b, subj, d, s, r).
     ''x_'' @ b @ ''_'' @ subj @ ''_'' @ d @ ''_'' @ str_int s @ ''_'' @ r)"

definition new_decision_var :: "key \<Rightarrow> cp_model \<times> (key \<rightharpoonup> var) \<Rightarrow> cp_model \<times> (key \<rightharpoonup> var)" where
  "new_decision_var k = (\<lambda>(m, x). let (v, m') = NewBoolVar (x_name k) m in (m', x(k \<mapsto> v)))"

definition decision_vars :: "room list \<Rightarrow> subjects \<Rightarrow> cp_model \<times> (key \<rightharpoonup> var)" where
  "decision_vars rooms subjs = fold new_decision_var (var_keys rooms subjs) (CpModel, Map.empty)"

subsection \<open>Soft constraints (lines 28-96)\<close>

text \<open>
  Every constraint of the source is built by the same four statements:
  \<^verbatim>\<open>lhs = sum(x[k] for k in ...)\<close>, \<^verbatim>\<open>slack = model.NewIntVar(lo, hi, name)\<close>,
  \<^verbatim>\<open>model.Add(...)\<close>, \<^verbatim>\<open>slack_vars.append((kind, who, when, slack))\<close>.
  A \<open>soft\<close> record holds what differs between the instances: the keys summed, the
  slack's bounds and name, the integer constant that the comparison is written with
  (\<open>rhs_const\<close>), the comparison itself (\<open>mk\<close>) and the three labels. \<open>add_soft\<close> runs
  the four statements on the model and the slack list; the comparison is where the
  library meets the constant.
\<close>

record soft =
  keys :: "key list"
  lo :: int
  hi :: int
  sname :: string
  rhs_const :: int
  mk :: "var list \<Rightarrow> var \<Rightarrow> constr"
  kind :: string
  who :: string
  when_label :: string

type_synonym slack_entry = "string \<times> string \<times> string \<times> var"

type_synonym build_state = "cp_model \<times> slack_entry list"

definition add_soft :: "(key \<rightharpoonup> var) \<Rightarrow> soft \<Rightarrow> build_state \<Rightarrow> error + build_state" where
  "add_soft x sp = (\<lambda>(m, slack_vars).
     case lookup_all x (keys sp) of
       Inl e \<Rightarrow> Inl e
     | Inr lhs \<Rightarrow>
         let (slack, m1) = NewIntVar (lo sp) (hi sp) (sname sp) m
         in if \<not> int64_ok (rhs_const sp) then Inl (Int64Error (rhs_const sp))
            else
              let m2 = Add (mk sp lhs slack) m1
              in Inr (m2, slack_vars @ [(kind sp, who sp, when_label sp, slack)]))"

text \<open>Subject weekly requirements (lines 31-36).\<close>

definition subject_weekly :: "room list \<Rightarrow> string \<times> subject_info \<Rightarrow> soft" where
  "subject_weekly rooms = (\<lambda>(subj, info).
     \<lparr>keys = [(batch info, subj, d, s, r). d \<leftarrow> days, s \<leftarrow> slots, r \<leftarrow> rooms],
      lo = 0, hi = 10,
      sname = ''slack_subject_'' @ subj @ ''_'' @ batch info,
      rhs_const = sessions_per_week info,
      mk = (\<lambda>lhs slack. Eq (map V lhs @ [V slack]) [C (sessions_per_week info)]),
      kind = ''Subject'', who = subj, when_label = batch info\<rparr>)"

text \<open>Batch clash (lines 39-50).\<close>

definition batch_clash :: "room list \<Rightarrow> subjects \<Rightarrow> string \<times> day \<times> slot \<Rightarrow> soft" where
  "batch_clash rooms subjs = (\<lambda>(b, d, s).
     \<lparr>keys = [(b, subj, d, s, r). (subj, info) \<leftarrow> subjs, batch info = b, r \<leftarrow> rooms],
      lo = 0, hi = 1,
      sname = ''slack_batch_'' @ b @ ''_'' @ d @ ''_'' @ str_int s,
      rhs_const = 1,
      mk = (\<lambda>lhs slack. Le (map V lhs) [C 1, V slack]),
      kind = ''BatchClash'', who = b, when_label = d @ ''-'' @ str_int s\<rparr>)"

text \<open>Room clash (lines 53-61).\<close>

definition room_clash :: "subjects \<Rightarrow> room \<times> day \<times> slot \<Rightarrow> soft" where
  "room_clash subjs = (\<lambda>(r, d, s).
     \<lparr>keys = [(batch info, subj, d, s, r). (subj, info) \<leftarrow> subjs],
      lo = 0, hi = 1,
      sname = ''slack_room_'' @ r @ ''_'' @ d @ ''_'' @ str_int s,
      rhs_const = 1,
      mk = (\<lambda>lhs slack. Le (map V lhs) [C 1, V slack]),
      kind = ''RoomClash'', who = r, when_label = d @ ''-'' @ str_int s\<rparr>)"

text \<open>Teacher weekly load (lines 64-75) and daily load (lines 78-88).\<close>

definition teacher_week :: "room list \<Rightarrow> subjects \<Rightarrow> string \<times> teacher_info \<Rightarrow> soft" where
  "teacher_week rooms subjs = (\<lambda>(t, tinfo).
     \<lparr>keys = [(batch info, subj, d, s, r).
               (subj, info) \<leftarrow> subjs, teacher info = t, d \<leftarrow> days, s \<leftarrow> slots, r \<leftarrow> rooms],
      lo = 0, hi = 20,
      sname = ''slack_teacher_week_'' @ t,
      rhs_const = max_load tinfo,
      mk = (\<lambda>lhs slack. Le (map V lhs) [C (max_load tinfo), V slack]),
      kind = ''TeacherWeek'', who = t, when_label = ''All''\<rparr>)"

definition teacher_day :: "room list \<Rightarrow> subjects \<Rightarrow> int \<Rightarrow> string \<Rightarrow> day \<Rightarrow> soft" where
  "teacher_day rooms subjs max_classes_per_day t d =
     \<lparr>keys = [(batch info, subj, d, s, r).
               (subj, info) \<leftarrow> subjs, teacher info = t, s \<leftarrow> slots, r \<leftarrow> rooms],
      lo = 0, hi = 5,
      sname = ''slack_teacher_day_'' @ t @ ''_'' @ d,
      rhs_const = max_classes_per_day,
      mk = (\<lambda>lhs slack. Le (map V lhs) [C max_classes_per_day, V slack]),
      kind = ''TeacherDay'', who = t, when_label = d\<rparr>"

definition teacher_load ::
  "(key \<rightharpoonup> var) \<Rightarrow> room list \<Rightarrow> subjects \<Rightarrow> int \<Rightarrow> string \<times> teacher_info \<Rightarrow> build_state
     \<Rightarrow> error + build_state" where
  "teacher_load x rooms subjs max_classes_per_day = (\<lambda>(t, tinfo) st.
     bind_err (add_soft x (teacher_week rooms subjs (t, tinfo)) st)
       (for_each (add_soft x) (map (teacher_day rooms subjs max_classes_per_day t) days)))"

text \<open>Fixed classes (lines 91-96).\<close>

definition fixed_class :: "key \<Rightarrow> soft" where
  "fixed_class = (\<lambda>(b, subj, d, s, r).
     \<lparr>keys = [(b, subj, d, s, r)],
      lo = 0, hi = 1,
      sname = ''slack_fixed_'' @ b @ ''_'' @ subj @ ''_'' @ d @ ''_'' @ str_int s,
      rhs_const = 1,
      mk = (\<lambda>lhs slack. Eq (map V lhs @ [V slack]) [C 1]),
      kind = ''FixedClass'', who = b, when_label = subj @ ''-'' @ d @ ''-'' @ str_int s\<rparr>)"

text \<open>\<^verbatim>\<open>if fixed_classes:\<close> skips both \<^verbatim>\<open>None\<close> and the empty list.\<close>

definition fixed_list :: "key list option \<Rightarrow> key list" where
  "fixed_list fixed_classes = (case fixed_classes of None \<Rightarrow> [] | Some fcs \<Rightarrow> fcs)"

subsection \<open>Building the model (lines 16-99)\<close>

definition slack_of :: "slack_entry \<Rightarrow> var" where
  "slack_of = (\<lambda>(knd, wh, whn, slack). slack)"

definition build_model ::
  "room list \<Rightarrow> string list \<Rightarrow> subjects \<Rightarrow> teachers \<Rightarrow> key list option \<Rightarrow> int
     \<Rightarrow> error + (cp_model \<times> (key \<rightharpoonup> var) \<times> slack_entry list)" where
  "build_model rooms batches subjs tchrs fixed_classes max_classes_per_day =
     (let (m0, x) = decision_vars rooms subjs in
      bind_err (for_each (add_soft x) (map (subject_weekly rooms) subjs) (m0, [])) (\<lambda>st1.
      bind_err (for_each (add_soft x)
                  [batch_clash rooms subjs (b, d, s). b \<leftarrow> batches, d \<leftarrow> days, s \<leftarrow> slots] st1) (\<lambda>st2.
      bind_err (for_each (add_soft x)
                  [room_clash subjs (r, d, s). r \<leftarrow> rooms, d \<leftarrow> days, s \<leftarrow> slots] st2) (\<lambda>st3.
      bind_err (for_each (teacher_load x rooms subjs max_classes_per_day) tchrs st3) (\<lambda>st4.
      bind_err (for_each (add_soft x) (map fixed_class (fixed_list fixed_classes)) st4)
        (\<lambda>(m5, slack_vars).
           Inr (Minimize (map V (map slack_of slack_vars)) m5, x, slack_vars)))))))"

subsection \<open>Solving and reporting (lines 101-136)\<close>

datatype status = UNKNOWN | MODEL_INVALID | FEASIBLE | INFEASIBLE | OPTIMAL

type_synonym solver = "cp_model \<Rightarrow> status \<times> (var \<Rightarrow> int)"

datatype out_line = Still_no_solution | Constraint_check | Violation string string string int

record row =
  Day :: string
  Slot :: int
  Batch :: string
  Subject :: string
  Teacher :: string
  Room :: string

definition report :: "(var \<Rightarrow> int) \<Rightarrow> slack_entry list \<Rightarrow> out_line list" where
  "report val slack_vars =
     Constraint_check #
     [Violation knd wh whn (val slack). (knd, wh, whn, slack) \<leftarrow> slack_vars, val slack > 0]"

definition timetable_step ::
  "(key \<rightharpoonup> var) \<Rightarrow> (var \<Rightarrow> int) \<Rightarrow> day \<times> slot \<times> string \<times> (string \<times> subject_info) \<times> room
     \<Rightarrow> row list \<Rightarrow> error + row list" where
  "timetable_step x val = (\<lambda>(d, s, b, (subj, info), r) timetable.
     case lookup x (b, subj, d, s, r) of
       Inl e \<Rightarrow> Inl e
     | Inr v \<Rightarrow>
         Inr (if val v \<noteq> 0
              then timetable @ [\<lparr>Day = d, Slot = s, Batch = b, Subject = subj,
                                 Teacher = teacher info, Room = r\<rparr>]
              else timetable))"

definition build_timetable ::
  "(key \<rightharpoonup> var) \<Rightarrow> (var \<Rightarrow> int) \<Rightarrow> room list \<Rightarrow> string list \<Rightarrow> subjects \<Rightarrow> error + row list" where
  "build_timetable x val rooms batches subjs =
     for_each (timetable_step x val)
       [(d, s, b, si, r). d \<leftarrow> days, s \<leftarrow> slots, b \<leftarrow> batches, si \<leftarrow> subjs, r \<leftarrow> rooms] []"

text \<open>
  \<^verbatim>\<open>pd.DataFrame(timetable).sort_values(["Batch", "Day", "Slot"])\<close>: a frame built from
  an empty list has no columns, so sorting it by a column name raises \<^verbatim>\<open>KeyError\<close>;
  otherwise the rows are sorted, stably, by (Batch, Day, Slot), strings in
  lexicographic order.
\<close>

definition sort_values :: "row list \<Rightarrow> error + row list" where
  "sort_values timetable =
     (if timetable = [] then Inl (KeyError_column ''Batch'')
      else Inr (sort_key (\<lambda>rw. (Batch rw, Day rw, Slot rw)) timetable))"

text \<open>The result: what was printed, and the error raised or the value returned.\<close>

definition solve_timetable_debug ::
  "solver \<Rightarrow> room list \<Rightarrow> string list \<Rightarrow> subjects \<Rightarrow> teachers \<Rightarrow> key list option \<Rightarrow> int
     \<Rightarrow> out_line list \<times> (error + row list option)" where
  "solve_timetable_debug solve rooms batches subjs tchrs fixed_classes max_classes_per_day =
     (case build_model rooms batches subjs tchrs fixed_classes max_classes_per_day of
        Inl e \<Rightarrow> ([], Inl e)
      | Inr (model, x, slack_vars) \<Rightarrow>
          (case solve model of (st, val) \<Rightarrow>
             if st \<noteq> OPTIMAL \<and> st \<noteq> FEASIBLE then ([Still_no_solution], Inr None)
             else
               (report val slack_vars,
                bind_err (build_timetable x val rooms batches subjs) (\<lambda>timetable.
                bind_err (sort_values timetable) (\<lambda>df. Inr (Some df))))))"

subsection \<open>Reference inputs\<close>

text \<open>The inputs of the script's main block (lines 140-147).\<close>

definition ref_subjects :: subjects where
  "ref_subjects =
     [(''Math'', \<lparr>sessions_per_week = 6, teacher = ''T1'', batch = ''B1''\<rparr>),
      (''Physics'', \<lparr>sessions_per_week = 6, teacher = ''T1'', batch = ''B1''\<rparr>)]"

definition ref_teachers :: teachers where
  "ref_teachers = [(''T1'', \<lparr>max_load = 12\<rparr>)]"

definition ref_fixed :: "key list option" where
  "ref_fixed = Some [(''B1'', ''Math'', ''Mon'', 1, ''R1'')]"

subsection \<open>Auxiliary definitions for the proofs\<close>

text \<open>
  What one run of \<open>add_soft\<close> adds for a soft constraint: the declaration of its slack
  variable, its entry in the slack list and its constraint, given the slack's index.
\<close>

definition decl_of :: "soft \<Rightarrow> int_var" where
  "decl_of sp = \<lparr>lb = lo sp, ub = hi sp, name = sname sp\<rparr>"

definition entry_of :: "soft \<Rightarrow> var \<Rightarrow> slack_entry" where
  "entry_of sp v = (kind sp, who sp, when_label sp, v)"

definition constr_of :: "(key \<rightharpoonup> var) \<Rightarrow> soft \<Rightarrow> var \<Rightarrow> constr" where
  "constr_of x sp v = mk sp (map (the \<circ> x) (keys sp)) v"

text \<open>
  The soft constraints in the order in which \<open>build_model\<close> adds them (lemma
  \<open>build_model_eq\<close>): per subject, per batch, day and slot, per room, day and slot,
  per teacher the weekly load followed by the five daily loads, and per fixed class.
\<close>

definition teacher_softs :: "room list \<Rightarrow> subjects \<Rightarrow> int \<Rightarrow> string \<times> teacher_info \<Rightarrow> soft list" where
  "teacher_softs rooms subjs max_classes_per_day = (\<lambda>(t, tinfo).
     teacher_week rooms subjs (t, tinfo) # map (teacher_day rooms subjs max_classes_per_day t) days)"

definition all_softs ::
  "room list \<Rightarrow> string list \<Rightarrow> subjects \<Rightarrow> teachers \<Rightarrow> key list option \<Rightarrow> int \<Rightarrow> soft list" where
  "all_softs rooms batches subjs tchrs fixed_classes max_classes_per_day =
     map (subject_weekly rooms) subjs @
     [batch_clash rooms subjs (b, d, s). b \<leftarrow> batches, d \<leftarrow> days, s \<leftarrow> slots] @
     [room_clash subjs (r, d, s). r \<leftarrow> rooms, d \<leftarrow> days, s \<leftarrow> slots] @
     concat (map (teacher_softs rooms subjs max_classes_per_day) tchrs) @
     map fixed_class (fixed_list fixed_classes)"

text \<open>The declaration of the decision variable of a key.\<close>

definition x_decl :: "key \<Rightarrow> int_var" where
  "x_decl k = \<lparr>lb = 0, ub = 1, name = x_name k\<rparr>"

definition unfixed_softs ::
  "room list \<Rightarrow> string list \<Rightarrow> subjects \<Rightarrow> teachers \<Rightarrow> int \<Rightarrow> soft list" where
  "unfixed_softs rooms batches subjs tchrs max_classes_per_day =
     map (subject_weekly rooms) subjs @
     [batch_clash rooms subjs (b, d, s). b \<leftarrow> batches, d \<leftarrow> days, s \<leftarrow> slots] @
     [room_clash subjs (r, d, s). r \<leftarrow> rooms, d \<leftarrow> days, s \<leftarrow> slots] @
     concat (map (teacher_softs rooms subjs max_classes_per_day) tchrs)"

text \<open>
  The constants that the constraints are written with fit the library: every
  \<^verbatim>\<open>sessions_per_week\<close> and \<^verbatim>\<open>max_load\<close>, and \<^verbatim>\<open>max_classes_per_day\<close> when there
  is a teacher to use it for.
\<close>

definition int64_inputs :: "subjects \<Rightarrow> teachers \<Rightarrow> int \<Rightarrow> bool" where
  "int64_inputs subjs tchrs max_classes_per_day =
     (list_all (\<lambda>(subj, info). int64_ok (sessions_per_week info)) subjs \<and>
      list_all (\<lambda>(t, tinfo). int64_ok (max_load tinfo)) tchrs \<and>
      (tchrs = [] \<or> int64_ok max_classes_per_day))"

text \<open>The model of a successful build.\<close>

definition built_model :: "error + (cp_model \<times> (key \<rightharpoonup> var) \<times> slack_entry list) \<Rightarrow> cp_model option" where
  "built_model res = (case res of Inl e \<Rightarrow> None | Inr (m, x, sv) \<Rightarrow> Some m)"

text \<open>
  An over-demanding input: one subject asking for 26 sessions with one room. All 25
  decision variables are 1, the subject slack (variable 25) is 1 and the weekly teacher
  slack (variable 76) is 13.
\<close>

definition over_subjects :: subjects where
  "over_subjects = [(''Math'', \<lparr>sessions_per_week = 26, teacher = ''T1'', batch = ''B1''\<rparr>)]"

definition over_assignment :: "var \<Rightarrow> int" where
  "over_assignment v = (if v < 26 then 1 else if v = 76 then 13 else 0)"

text \<open>Two batches with one subject each, and a subject whose batch is not listed.\<close>

definition two_batch_subjects :: subjects where
  "two_batch_subjects =
     [(''Math'', \<lparr>sessions_per_week = 1, teacher = ''T1'', batch = ''B1''\<rparr>),
      (''Physics'', \<lparr>sessions_per_week = 1, teacher = ''T2'', batch = ''B2''\<rparr>)]"

definition two_batch_teachers :: teachers where
  "two_batch_teachers = [(''T1'', \<lparr>max_load = 5\<rparr>), (''T2'', \<lparr>max_load = 5\<rparr>)]"

definition orphan_subjects :: subjects where
  "orphan_subjects = [(''Math'', \<lparr>sessions_per_week = 1, teacher = ''T1'', batch = ''B2''\<rparr>)]"

text \<open>A time context in the words of the claim: a day-slot label of the grid, or "All".\<close>

definition is_time_context :: "string \<Rightarrow> bool" where
  "is_time_context w = (w = ''All'' \<or> w \<in> set [d @ ''-'' @ str_int s. d \<leftarrow> days, s \<leftarrow> slots])"

text \<open>
  A soft constraint, spelled out, is in the built model with a given slack variable:
  the keys of its left-hand side are all variables, its constraint (written with that
  slack) is one of the model's, its labels are recorded with that slack in the slack
  list, and the slack is declared with the given bounds.
\<close>

definition soft_instance ::
  "cp_model \<Rightarrow> (key \<rightharpoonup> var) \<Rightarrow> slack_entry list \<Rightarrow> key list \<Rightarrow> int \<Rightarrow> int \<Rightarrow> (var list \<Rightarrow> constr)
     \<Rightarrow> string \<Rightarrow> string \<Rightarrow> string \<Rightarrow> var \<Rightarrow> bool" where
  "soft_instance m x sv ks l u c knd wh whn slack =
     (\<exists>lhs. lookup_all x ks = Inr lhs \<and> c lhs \<in> set (constraints m) \<and>
        (knd, wh, whn, slack) \<in> set sv \<and> slack < length (variables m) \<and>
        lb (variables m ! slack) = l \<and> ub (variables m ! slack) = u)"

text \<open>The coefficient of a variable in the minimised sum: how often it is a summand.\<close>

definition objective_coeff :: "cp_model \<Rightarrow> var \<Rightarrow> nat" where
  "objective_coeff m v =
     (case objective m of NoObjective \<Rightarrow> 0 | MinimizeObj e \<Rightarrow> count_list e (V v))"


text \<open>
  A schedule for the reference inputs with every slack at 0: Math on Monday, Tuesday and
  Wednesday in slots 1 and 2, Physics on the same days in slots 3 and 4. Variables 0-24
  are Math's and 25-49 Physics', five per day in slot order.
\<close>

definition ref_assignment :: "var \<Rightarrow> int" where
  "ref_assignment v = (if v \<in> set [0, 1, 5, 6, 10, 11, 27, 28, 32, 33, 37, 38] then 1 else 0)"

section \<open>Properties\<close>

lemma bind_err_simps [simp]:
  "bind_err (Inl e) f = Inl e" "bind_err (Inr v) f = f v"
  by (simp_all add: bind_err_def)

lemma for_each_append:
  "for_each f (as @ bs) st = bind_err (for_each f as st) (for_each f bs)"
  by (induction as arbitrary: st) (auto split: sum.splits)

lemma for_each_concat:
  "for_each (\<lambda>a. for_each f (g a)) as st = for_each f (concat (map g as)) st"
  by (induction as arbitrary: st) (auto simp: for_each_append split: sum.splits)

lemma lookup_all_ok:
  "set ks \<subseteq> dom x \<Longrightarrow> lookup_all x ks = Inr (map (the \<circ> x) ks)"
  by (induction ks) (auto simp: lookup_def split: option.splits)

lemma lookup_all_Inr:
  "lookup_all x ks = Inr vs \<Longrightarrow> set ks \<subseteq> dom x \<and> vs = map (the \<circ> x) ks"
  by (induction ks arbitrary: vs) (auto simp: lookup_def split: option.splits sum.splits)

lemma add_soft_ok:
  "set (keys sp) \<subseteq> dom x \<Longrightarrow> int64_ok (rhs_const sp) \<Longrightarrow>
   add_soft x sp (m, sv) =
     Inr (m\<lparr>variables := variables m @ [decl_of sp],
            constraints := constraints m @ [constr_of x sp (length (variables m))]\<rparr>,
          sv @ [entry_of sp (length (variables m))])"
  by (simp add: add_soft_def lookup_all_ok NewIntVar_def Add_def decl_of_def entry_of_def constr_of_def)

lemma add_soft_Inr:
  "add_soft x sp st = Inr st' \<Longrightarrow> set (keys sp) \<subseteq> dom x \<and> int64_ok (rhs_const sp)"
  by (cases st)
    (auto simp: add_soft_def NewIntVar_def split: sum.splits if_splits dest: lookup_all_Inr)

lemma for_each_soft_Inr:
  "for_each (add_soft x) sps (m, sv) = Inr (m', sv') \<Longrightarrow>
     variables m' = variables m @ map decl_of sps \<and>
     constraints m' =
       constraints m @ map (\<lambda>(v, sp). constr_of x sp v) (enumerate (length (variables m)) sps) \<and>
     sv' = sv @ map (\<lambda>(v, sp). entry_of sp v) (enumerate (length (variables m)) sps) \<and>
     objective m' = objective m \<and>
     (\<forall>sp \<in> set sps. set (keys sp) \<subseteq> dom x) \<and>
     (\<forall>sp \<in> set sps. int64_ok (rhs_const sp))"
proof (induction sps arbitrary: m sv)
  case Nil
  then show ?case by simp
next
  case (Cons sp sps)
  from Cons.prems obtain st1 where s1: "add_soft x sp (m, sv) = Inr st1"
    and r: "for_each (add_soft x) sps st1 = Inr (m', sv')"
    by (auto split: sum.splits)
  from add_soft_Inr [OF s1] have k: "set (keys sp) \<subseteq> dom x"
    and i: "int64_ok (rhs_const sp)" by simp_all
  from s1 add_soft_ok [OF k i, of m sv] obtain m1 sv1 where
    st1: "st1 = (m1, sv1)"
    and m1: "m1 = m\<lparr>variables := variables m @ [decl_of sp],
            constraints := constraints m @ [constr_of x sp (length (variables m))]\<rparr>"
    and sv1: "sv1 = sv @ [entry_of sp (length (variables m))]"
    by simp
  from Cons.IH [OF r [unfolded st1]] show ?case
    using k i by (simp add: m1 sv1)
qed

lemma for_each_soft_ok:
  "\<forall>sp \<in> set sps. set (keys sp) \<subseteq> dom x \<and> int64_ok (rhs_const sp) \<Longrightarrow>
   \<exists>st'. for_each (add_soft x) sps st = Inr st'"
proof (induction sps arbitrary: st)
  case Nil
  then show ?case by simp
next
  case (Cons sp sps)
  obtain m sv where st: "st = (m, sv)" by (cases st)
  from Cons.prems have k: "set (keys sp) \<subseteq> dom x" and i: "int64_ok (rhs_const sp)"
    by simp_all
  show ?case using Cons.IH Cons.prems by (simp add: st add_soft_ok [OF k i])
qed

lemma teacher_load_eq:
  "teacher_load x rooms subjs mc tt st =
     for_each (add_soft x) (teacher_softs rooms subjs mc tt) st"
  by (cases tt) (simp add: teacher_load_def teacher_softs_def bind_err_def split: sum.splits)

lemma build_model_eq:
  "build_model rooms batches subjs tchrs fixed_classes mc =
     (let (m0, x) = decision_vars rooms subjs in
      bind_err (for_each (add_soft x) (all_softs rooms batches subjs tchrs fixed_classes mc) (m0, []))
        (\<lambda>(m5, slack_vars). Inr (Minimize (map V (map slack_of slack_vars)) m5, x, slack_vars)))"
proof -
  have t: "teacher_load x rooms subjs mc = (\<lambda>tt. for_each (add_soft x) (teacher_softs rooms subjs mc tt))" for x
    by (intro ext) (rule teacher_load_eq)
  show ?thesis
    unfolding build_model_def all_softs_def for_each_append t for_each_concat
    by (simp add: bind_err_def split: sum.splits prod.splits)
qed

lemma fold_new_decision_var:
  "fold new_decision_var ks (m, x) = (m', x') \<Longrightarrow>
     variables m' = variables m @ map x_decl ks \<and>
     constraints m' = constraints m \<and> objective m' = objective m \<and>
     dom x' = dom x \<union> set ks \<and>
     (\<forall>k v. x' k = Some v \<longrightarrow>
        x k = Some v \<or> (length (variables m) \<le> v \<and> v < length (variables m) + length ks))"
proof (induction ks arbitrary: m x)
  case Nil
  then show ?case by simp
next
  case (Cons k ks)
  let ?m1 = "m\<lparr>variables := variables m @ [x_decl k]\<rparr>"
  let ?x1 = "x(k \<mapsto> length (variables m))"
  have step: "new_decision_var k (m, x) = (?m1, ?x1)"
    by (simp add: new_decision_var_def NewBoolVar_def NewIntVar_def x_decl_def)
  from Cons.prems have "fold new_decision_var ks (?m1, ?x1) = (m', x')"
    by (simp add: step)
  from Cons.IH [OF this] have
    v: "variables m' = variables ?m1 @ map x_decl ks"
    and c: "constraints m' = constraints ?m1"
    and ob: "objective m' = objective ?m1"
    and d: "dom x' = dom ?x1 \<union> set ks"
    and r: "\<And>k' v. x' k' = Some v \<Longrightarrow>
          ?x1 k' = Some v \<or>
          (length (variables ?m1) \<le> v \<and> v < length (variables ?m1) + length ks)"
    by blast+
  have r': "x k' = Some v \<or>
      (length (variables m) \<le> v \<and> v < length (variables m) + length (k # ks))"
    if "x' k' = Some v" for k' v
    using r [OF that] by (cases "k' = k") auto
  have "dom x' = dom x \<union> set (k # ks)" using d by auto
  with v c ob r' show ?case by (simp del: split_paired_All)
qed

lemma decision_vars_props:
  assumes "decision_vars rooms subjs = (m0, x)"
  shows "variables m0 = map x_decl (var_keys rooms subjs)"
    and "constraints m0 = []"
    and "objective m0 = NoObjective"
    and "dom x = set (var_keys rooms subjs)"
    and "x k = Some v \<Longrightarrow> v < length (var_keys rooms subjs)"
proof -
  note f = fold_new_decision_var [OF assms [unfolded decision_vars_def]]
  from f show "variables m0 = map x_decl (var_keys rooms subjs)" by (simp add: CpModel_def)
  from f show "constraints m0 = []" by (simp add: CpModel_def)
  from f show "objective m0 = NoObjective" by (simp add: CpModel_def)
  from f show "dom x = set (var_keys rooms subjs)" by simp
  from f have "\<forall>k v. x k = Some v \<longrightarrow> v < length (var_keys rooms subjs)"
    by (simp add: CpModel_def del: split_paired_All)
  then show "x k = Some v \<Longrightarrow> v < length (var_keys rooms subjs)" by blast
qed

lemma var_keys_iff:
  "(b, subj, d, s, r) \<in> set (var_keys rooms subjs) \<longleftrightarrow>
     (\<exists>info. (subj, info) \<in> set subjs \<and> b = batch info) \<and>
     d \<in> set days \<and> s \<in> set slots \<and> r \<in> set rooms"
  unfolding var_keys_def by (simp add: image_iff split_beta) (metis prod.collapse fst_conv snd_conv)

lemma keys_subject_weekly:
  "si \<in> set subjs \<Longrightarrow> set (keys (subject_weekly rooms si)) \<subseteq> set (var_keys rooms subjs)"
  by (cases si) (auto simp: subject_weekly_def var_keys_iff)

lemma keys_batch_clash:
  "d \<in> set days \<Longrightarrow> s \<in> set slots \<Longrightarrow>
   set (keys (batch_clash rooms subjs (b, d, s))) \<subseteq> set (var_keys rooms subjs)"
  by (auto simp: batch_clash_def var_keys_iff)

lemma keys_room_clash:
  "r \<in> set rooms \<Longrightarrow> d \<in> set days \<Longrightarrow> s \<in> set slots \<Longrightarrow>
   set (keys (room_clash subjs (r, d, s))) \<subseteq> set (var_keys rooms subjs)"
  by (auto simp: room_clash_def var_keys_iff)

lemma keys_teacher_week:
  "set (keys (teacher_week rooms subjs tt)) \<subseteq> set (var_keys rooms subjs)"
  by (cases tt) (auto simp: teacher_week_def var_keys_iff)

lemma keys_teacher_day:
  "d \<in> set days \<Longrightarrow> set (keys (teacher_day rooms subjs mc t d)) \<subseteq> set (var_keys rooms subjs)"
  by (auto simp: teacher_day_def var_keys_iff)

lemma keys_fixed_class: "keys (fixed_class k) = [k]"
  by (cases k) (simp add: fixed_class_def)

lemma all_softs_split:
  "all_softs rooms batches subjs tchrs fixed_classes mc =
     unfixed_softs rooms batches subjs tchrs mc @ map fixed_class (fixed_list fixed_classes)"
  by (simp add: all_softs_def unfixed_softs_def)

lemma keys_unfixed:
  assumes "sp \<in> set (unfixed_softs rooms batches subjs tchrs mc)"
  shows "set (keys sp) \<subseteq> set (var_keys rooms subjs)"
proof -
  from assms consider
      si where "si \<in> set subjs" "sp = subject_weekly rooms si"
    | b d s where "d \<in> set days" "s \<in> set slots" "sp = batch_clash rooms subjs (b, d, s)"
    | r d s where "r \<in> set rooms" "d \<in> set days" "s \<in> set slots" "sp = room_clash subjs (r, d, s)"
    | tt where "sp = teacher_week rooms subjs tt"
    | t d where "d \<in> set days" "sp = teacher_day rooms subjs mc t d"
    unfolding unfixed_softs_def teacher_softs_def by auto
  then show ?thesis
    by cases (simp_all add: keys_subject_weekly keys_batch_clash keys_room_clash
        keys_teacher_week keys_teacher_day)
qed

lemma all_softs_cases:
  assumes "sp \<in> set (all_softs rooms batches subjs tchrs fixed_classes mc)"
  obtains
    (subject) si where "si \<in> set subjs" "sp = subject_weekly rooms si"
  | (batch) b d s where "b \<in> set batches" "d \<in> set days" "s \<in> set slots"
      "sp = batch_clash rooms subjs (b, d, s)"
  | (room) r d s where "r \<in> set rooms" "d \<in> set days" "s \<in> set slots"
      "sp = room_clash subjs (r, d, s)"
  | (week) t tinfo where "(t, tinfo) \<in> set tchrs" "sp = teacher_week rooms subjs (t, tinfo)"
  | (day) t tinfo d where "(t, tinfo) \<in> set tchrs" "d \<in> set days"
      "sp = teacher_day rooms subjs mc t d"
  | (fixed) k where "k \<in> set (fixed_list fixed_classes)" "sp = fixed_class k"
  using assms unfolding all_softs_def teacher_softs_def by auto

lemma int64_all_softs:
  assumes i: "int64_inputs subjs tchrs mc"
    and sp: "sp \<in> set (all_softs rooms batches subjs tchrs fixed_classes mc)"
  shows "int64_ok (rhs_const sp)"
  using sp
proof (cases rule: all_softs_cases)
  case (subject si)
  with i show ?thesis
    by (cases si) (auto simp: int64_inputs_def list_all_iff subject_weekly_def)
next
  case (batch b d s)
  then show ?thesis by (simp add: batch_clash_def int64_ok_def)
next
  case (room r d s)
  then show ?thesis by (simp add: room_clash_def int64_ok_def)
next
  case (week t tinfo)
  with i show ?thesis by (auto simp: int64_inputs_def list_all_iff teacher_week_def)
next
  case (day t tinfo d)
  with i show ?thesis by (auto simp: int64_inputs_def list_all_iff teacher_day_def)
next
  case (fixed k)
  show ?thesis unfolding fixed(2) by (simp add: fixed_class_def int64_ok_def split_beta)
qed

lemma build_model_Inr:
  assumes "build_model rooms batches subjs tchrs fixed_classes mc = Inr (m, x, sv)"
  shows "variables m = map x_decl (var_keys rooms subjs) @
           map decl_of (all_softs rooms batches subjs tchrs fixed_classes mc)"
    and "constraints m = map (\<lambda>(v, sp). constr_of x sp v)
           (enumerate (length (var_keys rooms subjs))
              (all_softs rooms batches subjs tchrs fixed_classes mc))"
    and "sv = map (\<lambda>(v, sp). entry_of sp v)
           (enumerate (length (var_keys rooms subjs))
              (all_softs rooms batches subjs tchrs fixed_classes mc))"
    and "objective m = MinimizeObj (map V (map slack_of sv))"
    and "\<forall>sp \<in> set (all_softs rooms batches subjs tchrs fixed_classes mc). set (keys sp) \<subseteq> dom x"
    and "dom x = set (var_keys rooms subjs)"
    and "x k = Some v \<Longrightarrow> v < length (var_keys rooms subjs)"
    and "\<forall>sp \<in> set (all_softs rooms batches subjs tchrs fixed_classes mc). int64_ok (rhs_const sp)"
proof -
  obtain m0 x0 where dv: "decision_vars rooms subjs = (m0, x0)"
    by (cases "decision_vars rooms subjs")
  from assms obtain m5 where
    fe: "for_each (add_soft x0) (all_softs rooms batches subjs tchrs fixed_classes mc) (m0, [])
           = Inr (m5, sv)"
    and m: "m = Minimize (map V (map slack_of sv)) m5" and x: "x = x0"
    by (auto simp: build_model_eq dv bind_err_def split: sum.splits prod.splits)
  note p = for_each_soft_Inr [OF fe]
  note d = decision_vars_props [OF dv]
  from p d show "variables m = map x_decl (var_keys rooms subjs) @
           map decl_of (all_softs rooms batches subjs tchrs fixed_classes mc)"
    by (simp add: m Minimize_def)
  from p d show "constraints m = map (\<lambda>(v, sp). constr_of x sp v)
           (enumerate (length (var_keys rooms subjs))
              (all_softs rooms batches subjs tchrs fixed_classes mc))"
    by (simp add: m x Minimize_def)
  from p d show "sv = map (\<lambda>(v, sp). entry_of sp v)
           (enumerate (length (var_keys rooms subjs))
              (all_softs rooms batches subjs tchrs fixed_classes mc))"
    by simp
  show "objective m = MinimizeObj (map V (map slack_of sv))"
    by (simp add: m Minimize_def)
  from p show "\<forall>sp \<in> set (all_softs rooms batches subjs tchrs fixed_classes mc). set (keys sp) \<subseteq> dom x"
    by (simp add: x)
  from d show "dom x = set (var_keys rooms subjs)" by (simp add: x)
  from d(5) show "x k = Some v \<Longrightarrow> v < length (var_keys rooms subjs)" by (simp add: x)
  from p show "\<forall>sp \<in> set (all_softs rooms batches subjs tchrs fixed_classes mc). int64_ok (rhs_const sp)"
    by simp
qed

lemma build_model_ok:
  assumes "set (fixed_list fixed_classes) \<subseteq> set (var_keys rooms subjs)"
    and i: "int64_inputs subjs tchrs mc"
  shows "\<exists>m x sv. build_model rooms batches subjs tchrs fixed_classes mc = Inr (m, x, sv)"
proof -
  obtain m0 x0 where dv: "decision_vars rooms subjs = (m0, x0)"
    by (cases "decision_vars rooms subjs")
  have d: "dom x0 = set (var_keys rooms subjs)" by (rule decision_vars_props(4) [OF dv])
  have "\<forall>sp \<in> set (all_softs rooms batches subjs tchrs fixed_classes mc). set (keys sp) \<subseteq> dom x0"
    unfolding all_softs_split d using assms(1) keys_unfixed [of _ rooms batches subjs tchrs mc]
    by (auto simp: keys_fixed_class)
  with int64_all_softs [OF i]
  have "\<forall>sp \<in> set (all_softs rooms batches subjs tchrs fixed_classes mc).
          set (keys sp) \<subseteq> dom x0 \<and> int64_ok (rhs_const sp)"
    by blast
  from for_each_soft_ok [OF this, of "(m0, [])"] show ?thesis
    by (auto simp: build_model_eq dv)
qed

lemma soft_sound:
  assumes b: "build_model rooms batches subjs tchrs fixed_classes mc = Inr (m, x, sv)"
    and sp: "sp \<in> set (all_softs rooms batches subjs tchrs fixed_classes mc)"
  shows "\<exists>v. entry_of sp v \<in> set sv \<and> length (var_keys rooms subjs) \<le> v \<and>
           v < length (variables m) \<and> variables m ! v = decl_of sp \<and>
           constr_of x sp v \<in> set (constraints m)"
proof -
  let ?sps = "all_softs rooms batches subjs tchrs fixed_classes mc"
  let ?n = "length (var_keys rooms subjs)"
  from sp obtain i where i: "i < length ?sps" "?sps ! i = sp"
    by (auto simp: in_set_conv_nth)
  then have e: "(?n + i, sp) \<in> set (enumerate ?n ?sps)"
    by (simp add: in_set_enumerate_eq)
  have 1: "entry_of sp (?n + i) \<in> set sv"
    unfolding build_model_Inr(3) [OF b] using e by force
  have 2: "constr_of x sp (?n + i) \<in> set (constraints m)"
    unfolding build_model_Inr(2) [OF b] using e by force
  have 3: "variables m ! (?n + i) = decl_of sp" "?n + i < length (variables m)"
    using i by (simp_all add: build_model_Inr(1) [OF b] nth_append)
  from 1 2 3 show ?thesis by (intro exI [of _ "?n + i"]) simp
qed

lemma satisfies_domain:
  "satisfies m a \<Longrightarrow> v < length (variables m) \<Longrightarrow>
   lb (variables m ! v) \<le> a v \<and> a v \<le> ub (variables m ! v)"
  by (auto simp: satisfies_def in_domain_def list_all_iff in_set_enumerate_eq)

lemma satisfies_constr:
  "satisfies m a \<Longrightarrow> c \<in> set (constraints m) \<Longrightarrow> holds a c"
  by (simp add: satisfies_def list_all_iff)

lemma decision_var_bool:
  assumes b: "build_model rooms batches subjs tchrs fixed_classes mc = Inr (m, x, sv)"
    and s: "satisfies m a" and k: "x k = Some v"
  shows "0 \<le> a v \<and> a v \<le> 1"
proof -
  from build_model_Inr(7) [OF b k] have v: "v < length (var_keys rooms subjs)" .
  then have "variables m ! v = x_decl (var_keys rooms subjs ! v)" "v < length (variables m)"
    by (simp_all add: build_model_Inr(1) [OF b] nth_append)
  with satisfies_domain [OF s, of v] show ?thesis by (simp add: x_decl_def)
qed

lemma lhs_bool:
  assumes b: "build_model rooms batches subjs tchrs fixed_classes mc = Inr (m, x, sv)"
    and s: "satisfies m a" and l: "lookup_all x ks = Inr lhs"
  shows "\<forall>v \<in> set lhs. 0 \<le> a v \<and> a v \<le> 1"
proof -
  from lookup_all_Inr [OF l] have "set ks \<subseteq> dom x" "lhs = map (the \<circ> x) ks" by simp_all
  then show ?thesis using decision_var_bool [OF b s] by auto
qed

lemma sum_bool_bounds:
  "\<forall>v \<in> set vs. 0 \<le> a v \<and> a v \<le> (1::int) \<Longrightarrow>
   0 \<le> sum_list (map a vs) \<and> sum_list (map a vs) \<le> int (length vs)"
  by (induction vs) auto

lemma eval_sum_V [simp]: "eval_sum a (map V vs) = sum_list (map a vs)"
  by (simp add: eval_sum_def comp_def)

lemma eval_sum_append [simp]: "eval_sum a (xs @ ys) = eval_sum a xs + eval_sum a ys"
  by (simp add: eval_sum_def)

lemma eval_sum_Cons [simp]: "eval_sum a (t # ts) = eval_summand a t + eval_sum a ts"
  by (simp add: eval_sum_def)

lemma eval_sum_Nil [simp]: "eval_sum a [] = 0"
  by (simp add: eval_sum_def)

lemma soft_built:
  assumes b: "build_model rooms batches subjs tchrs fixed_classes mc = Inr (m, x, sv)"
    and sp: "sp \<in> set (all_softs rooms batches subjs tchrs fixed_classes mc)"
  shows "\<exists>v lhs. lookup_all x (keys sp) = Inr lhs \<and>
           (kind sp, who sp, when_label sp, v) \<in> set sv \<and>
           length (var_keys rooms subjs) \<le> v \<and> v < length (variables m) \<and>
           lb (variables m ! v) = lo sp \<and> ub (variables m ! v) = hi sp \<and>
           mk sp lhs v \<in> set (constraints m)"
proof -
  from soft_sound [OF b sp] obtain v where
    v: "entry_of sp v \<in> set sv" "length (var_keys rooms subjs) \<le> v"
      "v < length (variables m)" "variables m ! v = decl_of sp"
      "constr_of x sp v \<in> set (constraints m)"
    by blast
  from build_model_Inr(5) [OF b] sp have "set (keys sp) \<subseteq> dom x" by blast
  then have "lookup_all x (keys sp) = Inr (map (the \<circ> x) (keys sp))" by (rule lookup_all_ok)
  with v show ?thesis
    by (simp add: entry_of_def decl_of_def constr_of_def) (rule exI [of _ v], simp)
qed

lemma subject_in_all_softs:
  "si \<in> set subjs \<Longrightarrow>
   subject_weekly rooms si \<in> set (all_softs rooms batches subjs tchrs fixed_classes mc)"
  by (simp add: all_softs_def)

lemma batch_in_all_softs:
  "b \<in> set batches \<Longrightarrow> d \<in> set days \<Longrightarrow> s \<in> set slots \<Longrightarrow>
   batch_clash rooms subjs (b, d, s) \<in> set (all_softs rooms batches subjs tchrs fixed_classes mc)"
  by (force simp: all_softs_def)

lemma sum_bool_count:
  "\<forall>v \<in> set vs. 0 \<le> a v \<and> a v \<le> (1::int) \<Longrightarrow>
   sum_list (map a vs) = int (length (filter (\<lambda>v. a v \<noteq> 0) vs))"
  by (induction vs) auto

text \<open>
  Claim C5. When the model has been built and the solver reports neither OPTIMAL nor
  FEASIBLE, \<^verbatim>\<open>solve_timetable_debug\<close> prints the failure line only and returns
  \<^verbatim>\<open>None\<close>: no table, partial or otherwise, is produced.
\<close>

theorem c5_no_solution_returns_none:
  assumes "build_model rooms batches subjs tchrs fixed_classes mc = Inr (m, x, sv)"
    and "fst (solve m) \<noteq> OPTIMAL" and "fst (solve m) \<noteq> FEASIBLE"
  shows "solve_timetable_debug solve rooms batches subjs tchrs fixed_classes mc =
           ([Still_no_solution], Inr None)"
  using assms by (cases "solve m") (simp add: solve_timetable_debug_def)

text \<open>
  Claim C10. In every satisfying assignment of the built model, the sum of the decision
  variables of a subject over all days, slots and rooms, which is the number of them
  that are true, is at most the subject's \<^verbatim>\<open>sessions_per_week\<close>.
\<close>

theorem c10_never_over_scheduled:
  assumes b: "build_model rooms batches subjs tchrs fixed_classes mc = Inr (m, x, sv)"
    and s: "satisfies m a"
    and si: "(subj, info) \<in> set subjs"
  shows "\<exists>lhs.
     lookup_all x [(batch info, subj, d, s, r). d \<leftarrow> days, s \<leftarrow> slots, r \<leftarrow> rooms] = Inr lhs \<and>
     sum_list (map a lhs) \<le> sessions_per_week info \<and>
     int (length (filter (\<lambda>v. a v \<noteq> 0) lhs)) \<le> sessions_per_week info"
proof -
  from soft_built [OF b subject_in_all_softs [OF si]] obtain v lhs where
    l: "lookup_all x [(batch info, subj, d, s, r). d \<leftarrow> days, s \<leftarrow> slots, r \<leftarrow> rooms] = Inr lhs"
    and v: "v < length (variables m)" "lb (variables m ! v) = 0"
    and c: "Eq (map V lhs @ [V v]) [C (sessions_per_week info)] \<in> set (constraints m)"
    by (auto simp: subject_weekly_def)
  from satisfies_constr [OF s c] have e: "sum_list (map a lhs) + a v = sessions_per_week info"
    by simp
  from satisfies_domain [OF s v(1)] v(2) have "0 \<le> a v" by simp
  with e have le: "sum_list (map a lhs) \<le> sessions_per_week info" by simp
  from lhs_bool [OF b s l] have "sum_list (map a lhs) = int (length (filter (\<lambda>v. a v \<noteq> 0) lhs))"
    by (rule sum_bool_count)
  with l le show ?thesis by auto
qed

text \<open>
  Claim C8. For every batch of \<^verbatim>\<open>batches\<close>, day and slot, the model has a batch-clash
  slack with domain [0,1], and in every satisfying assignment the number of true decision
  variables of that batch at that day and slot, over all its subjects and all rooms, is
  at most 1 plus the value of that slack, which lies between 0 and 1.
\<close>

theorem c8_batch_clash:
  assumes b: "build_model rooms batches subjs tchrs fixed_classes mc = Inr (m, x, sv)"
    and s: "satisfies m a"
    and t: "bt \<in> set batches" "d \<in> set days" "sl \<in> set slots"
  shows "\<exists>slack lhs.
     (''BatchClash'', bt, d @ ''-'' @ str_int sl, slack) \<in> set sv \<and>
     slack < length (variables m) \<and>
     lb (variables m ! slack) = 0 \<and> ub (variables m ! slack) = 1 \<and>
     lookup_all x [(bt, subj, d, sl, r). (subj, info) \<leftarrow> subjs, batch info = bt, r \<leftarrow> rooms]
       = Inr lhs \<and>
     Le (map V lhs) [C 1, V slack] \<in> set (constraints m) \<and>
     int (length (filter (\<lambda>v. a v \<noteq> 0) lhs)) \<le> 1 + a slack \<and>
     0 \<le> a slack \<and> a slack \<le> 1"
proof -
  from soft_built [OF b batch_in_all_softs [OF t]] obtain v lhs where
    l: "lookup_all x [(bt, subj, d, sl, r). (subj, info) \<leftarrow> subjs, batch info = bt, r \<leftarrow> rooms]
          = Inr lhs"
    and e: "(''BatchClash'', bt, d @ ''-'' @ str_int sl, v) \<in> set sv"
    and v: "v < length (variables m)" "lb (variables m ! v) = 0" "ub (variables m ! v) = 1"
    and c: "Le (map V lhs) [C 1, V v] \<in> set (constraints m)"
    by (auto simp: batch_clash_def)
  from satisfies_constr [OF s c] have le: "sum_list (map a lhs) \<le> 1 + a v"
    by simp
  from satisfies_domain [OF s v(1)] v(2,3) have d: "0 \<le> a v" "a v \<le> 1" by simp_all
  from lhs_bool [OF b s l] have "sum_list (map a lhs) = int (length (filter (\<lambda>v. a v \<noteq> 0) lhs))"
    by (rule sum_bool_count)
  with l e v c le d show ?thesis by auto
qed






lemma sum_list_upd:
  "distinct vs \<Longrightarrow> v \<in> set vs \<Longrightarrow>
   sum_list (map (a(v := c)) vs) = sum_list (map a vs) - a v + (c::int)"
proof (induction vs)
  case Nil
  then show ?case by simp
next
  case (Cons u vs)
  show ?case
  proof (cases "u = v")
    case True
    with Cons.prems have "v \<notin> set vs" by simp
    then have e: "map (a(v := c)) vs = map a vs" by (induction vs) auto
    have 1: "sum_list (map (a(v := c)) (u # vs)) = c + sum_list (map a vs)"
      by (simp only: list.map sum_list.Cons e True fun_upd_same)
    have 2: "sum_list (map a (u # vs)) = a v + sum_list (map a vs)"
      by (simp add: True)
    from 1 2 show ?thesis by linarith
  next
    case False
    with Cons show ?thesis by simp
  qed
qed

lemma slack_vars_upt:
  assumes b: "build_model rooms batches subjs tchrs fixed_classes mc = Inr (m, x, sv)"
  shows "map slack_of sv = [length (var_keys rooms subjs) ..< length (variables m)]"
proof -
  have f: "slack_of \<circ> (\<lambda>(v, sp). entry_of sp v) = fst"
    by (auto simp: slack_of_def entry_of_def fun_eq_iff)
  show ?thesis
    by (simp add: build_model_Inr(3) [OF b] build_model_Inr(1) [OF b] f add.commute)
qed

lemma lookup_all_length: "lookup_all x ks = Inr lhs \<Longrightarrow> length lhs = length ks"
  by (drule lookup_all_Inr) simp

lemma length_subject_keys:
  "length [(b, subj, d, s, r). d \<leftarrow> days, s \<leftarrow> slots, r \<leftarrow> rooms] = 25 * length rooms"
  by (simp add: days_def slots_def)

lemma subject_sound:
  assumes b: "build_model rooms batches subjs tchrs fixed_classes mc = Inr (m, x, sv)"
    and si: "(subj, info) \<in> set subjs"
  shows "\<exists>v lhs.
     lookup_all x [(batch info, subj, d, s, r). d \<leftarrow> days, s \<leftarrow> slots, r \<leftarrow> rooms] = Inr lhs \<and>
     (''Subject'', subj, batch info, v) \<in> set sv \<and>
     v < length (variables m) \<and> lb (variables m ! v) = 0 \<and> ub (variables m ! v) = 10 \<and>
     Eq (map V lhs @ [V v]) [C (sessions_per_week info)] \<in> set (constraints m) \<and>
     (\<forall>a. satisfies m a \<longrightarrow>
        sum_list (map a lhs) + a v = sessions_per_week info \<and> 0 \<le> a v \<and> a v \<le> 10 \<and>
        0 \<le> sum_list (map a lhs) \<and> sum_list (map a lhs) \<le> 25 * int (length rooms))"
proof -
  from soft_built [OF b subject_in_all_softs [OF si]] obtain v lhs where
    l: "lookup_all x [(batch info, subj, d, s, r). d \<leftarrow> days, s \<leftarrow> slots, r \<leftarrow> rooms] = Inr lhs"
    and e: "(''Subject'', subj, batch info, v) \<in> set sv"
    and v: "v < length (variables m)" "lb (variables m ! v) = 0" "ub (variables m ! v) = 10"
    and c: "Eq (map V lhs @ [V v]) [C (sessions_per_week info)] \<in> set (constraints m)"
    by (auto simp: subject_weekly_def)
  have len: "length lhs = 25 * length rooms"
    using lookup_all_length [OF l] by (simp only: length_subject_keys)
  have "sum_list (map a lhs) + a v = sessions_per_week info \<and> 0 \<le> a v \<and> a v \<le> 10 \<and>
        0 \<le> sum_list (map a lhs) \<and> sum_list (map a lhs) \<le> 25 * int (length rooms)"
    if s: "satisfies m a" for a
  proof -
    from satisfies_constr [OF s c] have 1: "sum_list (map a lhs) + a v = sessions_per_week info"
      by simp
    from satisfies_domain [OF s v(1)] v(2,3) have 2: "0 \<le> a v" "a v \<le> 10" by simp_all
    from sum_bool_bounds [OF lhs_bool [OF b s l]] len
    have 3: "0 \<le> sum_list (map a lhs)" "sum_list (map a lhs) \<le> 25 * int (length rooms)"
      by simp_all
    from 1 2 3 show ?thesis by simp
  qed
  with l e v c show ?thesis by blast
qed

lemma report_mem:
  "(k, w, wh, s) \<in> set sv \<Longrightarrow> 0 < val s \<Longrightarrow> Violation k w wh (val s) \<in> set (report val sv)"
  by (force simp: report_def)

lemma printed_ok:
  assumes "build_model rooms batches subjs tchrs fixed_classes mc = Inr (m, x, sv)"
    and "solve m = (st, val)" and "st = OPTIMAL \<or> st = FEASIBLE"
  shows "fst (solve_timetable_debug solve rooms batches subjs tchrs fixed_classes mc) = report val sv"
  using assms by (auto simp: solve_timetable_debug_def)

lemma filter_enumerate_none:
  "\<forall>y \<in> set ys. \<not> P y \<Longrightarrow> filter (\<lambda>p. P (snd p)) (enumerate n ys) = []"
  by (auto simp: filter_empty_conv in_set_enumerate_eq)

lemma filter_enumerate_unique:
  "distinct (map g ys) \<Longrightarrow> y \<in> set ys \<Longrightarrow>
   \<exists>i. filter (\<lambda>p. g (snd p) = g y) (enumerate n ys) = [(i, y)]"
proof (induction ys arbitrary: n)
  case Nil
  then show ?case by simp
next
  case (Cons z ys)
  show ?case
  proof (cases "z = y")
    case True
    with Cons.prems have "g y \<notin> g ` set ys" by simp
    then have "\<forall>u \<in> set ys. \<not> g u = g y" by (metis imageI)
    from filter_enumerate_none [OF this] True show ?thesis by simp
  next
    case False
    with Cons.prems have "y \<in> set ys" "g z \<noteq> g y" "distinct (map g ys)" by auto
    with Cons.IH [of "Suc n"] show ?thesis by simp
  qed
qed

lemma other_kinds:
  "sp \<in> set ([batch_clash rooms subjs (b, d, s). b \<leftarrow> batches, d \<leftarrow> days, s \<leftarrow> slots] @
     [room_clash subjs (r, d, s). r \<leftarrow> rooms, d \<leftarrow> days, s \<leftarrow> slots] @
     concat (map (teacher_softs rooms subjs mc) tchrs) @
     map fixed_class fl) \<Longrightarrow> kind sp \<noteq> ''Subject''"
  by (auto simp: batch_clash_def room_clash_def teacher_softs_def teacher_week_def
      teacher_day_def fixed_class_def split: prod.splits)

lemma subject_entries:
  assumes b: "build_model rooms batches subjs tchrs fixed_classes mc = Inr (m, x, sv)"
    and dist: "distinct (map fst subjs)"
    and si: "(subj, info) \<in> set subjs"
  shows "\<exists>v. filter (\<lambda>e. fst e = ''Subject'' \<and> fst (snd e) = subj) sv
           = [(''Subject'', subj, batch info, v)]"
proof -
  let ?A = "map (subject_weekly rooms) subjs"
  let ?R = "[batch_clash rooms subjs (b, d, s). b \<leftarrow> batches, d \<leftarrow> days, s \<leftarrow> slots] @
     [room_clash subjs (r, d, s). r \<leftarrow> rooms, d \<leftarrow> days, s \<leftarrow> slots] @
     concat (map (teacher_softs rooms subjs mc) tchrs) @
     map fixed_class (fixed_list fixed_classes)"
  let ?n = "length (var_keys rooms subjs)"
  let ?P = "\<lambda>sp. kind sp = ''Subject'' \<and> who sp = subj"
  let ?y = "subject_weekly rooms (subj, info)"
  have sv: "sv = map (\<lambda>(v, sp). entry_of sp v) (enumerate ?n (?A @ ?R))"
    using build_model_Inr(3) [OF b] by (simp add: all_softs_def)
  have q: "(\<lambda>e. fst e = ''Subject'' \<and> fst (snd e) = subj) \<circ> (\<lambda>(v, sp). entry_of sp v)
             = (\<lambda>p. ?P (snd p))"
    by (auto simp: fun_eq_iff entry_of_def)
  have w: "map who ?A = map fst subjs"
    by (simp add: subject_weekly_def split_beta comp_def)
  have kA: "\<forall>sp \<in> set ?A. kind sp = ''Subject''"
    by (auto simp: subject_weekly_def)
  have wy: "who ?y = subj" by (simp add: subject_weekly_def)
  have "filter (\<lambda>p. ?P (snd p)) (enumerate ?n ?A)
          = filter (\<lambda>p. who (snd p) = who ?y) (enumerate ?n ?A)"
    using kA by (intro filter_cong refl) (auto simp: in_set_enumerate_eq wy)
  moreover have "distinct (map who ?A)" "?y \<in> set ?A"
    using dist si by (simp_all only: w) (simp add: image_iff, metis)
  from filter_enumerate_unique [OF this, of ?n]
  obtain i where "filter (\<lambda>p. who (snd p) = who ?y) (enumerate ?n ?A) = [(i, ?y)]"
    by blast
  moreover have "filter (\<lambda>p. ?P (snd p)) (enumerate (?n + length ?A) ?R) = []"
    using other_kinds by (intro filter_enumerate_none) blast
  ultimately have "filter (\<lambda>p. ?P (snd p)) (enumerate ?n (?A @ ?R)) = [(i, ?y)]"
    by (simp only: enumerate_append_eq filter_append append_Nil2)
  then have "filter (\<lambda>e. fst e = ''Subject'' \<and> fst (snd e) = subj) sv = [entry_of ?y i]"
    unfolding sv filter_map q by simp
  then show ?thesis by (simp add: entry_of_def subject_weekly_def)
qed

text \<open>
  Claim C4. For each subject of the catalog (a dictionary: the names are distinct) the
  slack list holds exactly one subject-weekly entry; its slack variable has domain
  [0,10]; the model holds the constraint that the sum of the subject's decision variables
  over all days, slots and rooms plus that slack equals \<^verbatim>\<open>sessions_per_week\<close>; and so
  every satisfying assignment has scheduled count plus slack equal to
  \<^verbatim>\<open>sessions_per_week\<close>, with the slack between 0 and 10.
\<close>

theorem c4_subject_weekly_constraint:
  assumes b: "build_model rooms batches subjs tchrs fixed_classes mc = Inr (m, x, sv)"
    and dist: "distinct (map fst subjs)"
    and si: "(subj, info) \<in> set subjs"
  shows "\<exists>slack lhs.
     filter (\<lambda>e. fst e = ''Subject'' \<and> fst (snd e) = subj) sv
       = [(''Subject'', subj, batch info, slack)] \<and>
     slack < length (variables m) \<and>
     lb (variables m ! slack) = 0 \<and> ub (variables m ! slack) = 10 \<and>
     lookup_all x [(batch info, subj, d, s, r). d \<leftarrow> days, s \<leftarrow> slots, r \<leftarrow> rooms] = Inr lhs \<and>
     Eq (map V lhs @ [V slack]) [C (sessions_per_week info)] \<in> set (constraints m) \<and>
     (\<forall>a. satisfies m a \<longrightarrow>
        sum_list (map a lhs) + a slack = sessions_per_week info \<and>
        0 \<le> a slack \<and> a slack \<le> 10)"
proof -
  from subject_entries [OF b dist si] obtain v' where
    f: "filter (\<lambda>e. fst e = ''Subject'' \<and> fst (snd e) = subj) sv
          = [(''Subject'', subj, batch info, v')]"
    by blast
  from subject_sound [OF b si] obtain v lhs where
    l: "lookup_all x [(batch info, subj, d, s, r). d \<leftarrow> days, s \<leftarrow> slots, r \<leftarrow> rooms] = Inr lhs"
    and e: "(''Subject'', subj, batch info, v) \<in> set sv"
    and v: "v < length (variables m)" "lb (variables m ! v) = 0" "ub (variables m ! v) = 10"
    and c: "Eq (map V lhs @ [V v]) [C (sessions_per_week info)] \<in> set (constraints m)"
    and h: "\<forall>a. satisfies m a \<longrightarrow>
        sum_list (map a lhs) + a v = sessions_per_week info \<and> 0 \<le> a v \<and> a v \<le> 10"
    by blast
  from e have "(''Subject'', subj, batch info, v)
      \<in> set (filter (\<lambda>e. fst e = ''Subject'' \<and> fst (snd e) = subj) sv)"
    by simp
  then have "v = v'" unfolding f by simp
  with f l v c h show ?thesis by blast
qed

lemma sum_zero: "\<forall>u \<in> set vs. a u = (0::int) \<Longrightarrow> sum_list (map a vs) = 0"
  by (induction vs) auto

lemma in_domain_iff:
  "in_domain a vs \<longleftrightarrow> (\<forall>i < length vs. lb (vs ! i) \<le> a i \<and> a i \<le> ub (vs ! i))"
  by (auto simp: in_domain_def list_all_iff in_set_enumerate_eq)

text \<open>
  The claim as stated fails: one subject that asks for 36 sessions, with one room. The
  25 decision variables and the slack, at most 10, sum to at most 35.
\<close>

theorem c1_counterexample:
  "map_option feasible
     (built_model (build_model [''R1''] [''B1'']
        [(''Math'', \<lparr>sessions_per_week = 36, teacher = ''T1'', batch = ''B1''\<rparr>)]
        ref_teachers None 5)) = Some False"
proof -
  let ?subjs = "[(''Math'', \<lparr>sessions_per_week = 36, teacher = ''T1'', batch = ''B1''\<rparr>)]"
  have "set (fixed_list None) \<subseteq> set (var_keys [''R1''] ?subjs)" by (simp add: fixed_list_def)
  moreover have "int64_inputs ?subjs ref_teachers 5"
    by (simp add: int64_inputs_def int64_ok_def ref_teachers_def)
  ultimately obtain m x sv where
    b: "build_model [''R1''] [''B1''] ?subjs ref_teachers None 5 = Inr (m, x, sv)"
    using build_model_ok by blast
  have "\<not> satisfies m a" for a
  proof
    assume s: "satisfies m a"
    from subject_sound [OF b, of "''Math''" "\<lparr>sessions_per_week = 36, teacher = ''T1'', batch = ''B1''\<rparr>"]
    obtain v lhs where "\<forall>a. satisfies m a \<longrightarrow>
        sum_list (map a lhs) + a v = 36 \<and> 0 \<le> a v \<and> a v \<le> 10 \<and>
        0 \<le> sum_list (map a lhs) \<and> sum_list (map a lhs) \<le> 25 * int (length [''R1''])"
      by auto
    with s show False by fastforce
  qed
  then have "\<not> feasible m" by (simp add: feasible_def)
  with b show ?thesis by (simp add: built_model_def)
qed

lemma timetable_fail:
  assumes "\<forall>a \<in> set pre. (case a of (d, s, b, (subj, info), r) \<Rightarrow> (b, subj, d, s, r) \<in> dom x)"
    and "(b, subj, d, s, r) \<notin> dom x"
  shows "for_each (timetable_step x val) (pre @ (d, s, b, (subj, info), r) # post) rows
           = Inl (KeyError (b, subj, d, s, r))"
  using assms
proof (induction pre arbitrary: rows)
  case Nil
  from Nil.prems(2) have "x (b, subj, d, s, r) = None" by (simp add: domIff)
  then show ?case by (simp add: timetable_step_def lookup_def)
next
  case (Cons a pre)
  obtain d' s' b' subj' info' r' where a: "a = (d', s', b', (subj', info'), r')"
    by (metis prod.collapse)
  from Cons.prems(1) obtain v where "x (b', subj', d', s', r') = Some v"
    by (auto simp: a)
  then have "\<exists>rows'. timetable_step x val a rows = Inr rows'"
    by (simp add: a timetable_step_def lookup_def)
  with Cons show ?case by auto
qed

text \<open>
  Claim C2 fails on the code. The table loop (lines 118-123) looks up
  \<^verbatim>\<open>x[(batch, subj, d, s, r)]\<close> for every batch of \<^verbatim>\<open>batches\<close> and every subject, but a
  subject has variables under its own batch only. With two batches, each with a subject,
  the second lookup raises \<^verbatim>\<open>KeyError\<close>; with a subject whose batch is not in
  \<^verbatim>\<open>batches\<close>, the first one does. No table is returned, whatever the solver found.
\<close>

theorem c2_table_loop_key_error:
  "snd (solve_timetable_debug (\<lambda>m. (OPTIMAL, val)) [''R1''] [''B1'', ''B2'']
          two_batch_subjects two_batch_teachers None 5)
     = Inl (KeyError (''B1'', ''Physics'', ''Mon'', 1, ''R1'')) \<and>
   snd (solve_timetable_debug (\<lambda>m. (OPTIMAL, val)) [''R1''] [''B1'']
          orphan_subjects ref_teachers None 5)
     = Inl (KeyError (''B1'', ''Math'', ''Mon'', 1, ''R1''))"
proof -
  have f: "set (fixed_list None) \<subseteq> S" for S :: "key set" by (simp add: fixed_list_def)
  have i: "int64_inputs two_batch_subjects two_batch_teachers 5"
    by (simp add: int64_inputs_def int64_ok_def two_batch_subjects_def two_batch_teachers_def)
  from build_model_ok [OF f i] obtain m x sv where
    b: "build_model [''R1''] [''B1'', ''B2''] two_batch_subjects two_batch_teachers None 5
          = Inr (m, x, sv)"
    by blast
  note d = build_model_Inr(6) [OF b]
  let ?M = "(''Math'', \<lparr>sessions_per_week = 1, teacher = ''T1'', batch = ''B1''\<rparr>)"
  let ?P = "(''Physics'', \<lparr>sessions_per_week = 1, teacher = ''T2'', batch = ''B2''\<rparr>)"
  let ?L = "[(d, s, b, si, r). d \<leftarrow> days, s \<leftarrow> slots, b \<leftarrow> [''B1'', ''B2''],
               si \<leftarrow> two_batch_subjects, r \<leftarrow> [''R1'']]"
  have L: "?L = [(''Mon'', 1, ''B1'', ?M, ''R1'')] @ (''Mon'', 1, ''B1'', ?P, ''R1'') # drop 2 ?L"
    by (simp add: days_def slots_def two_batch_subjects_def)
  have 1: "\<forall>a \<in> set [(''Mon'', 1, ''B1'', ?M, ''R1'')].
             (case a of (d, s, b, (subj, info), r) \<Rightarrow> (b, subj, d, s, r) \<in> dom x)"
    by (simp add: d var_keys_iff two_batch_subjects_def days_def slots_def)
  have 2: "(''B1'', ''Physics'', ''Mon'', 1, ''R1'') \<notin> dom x"
    by (simp add: d var_keys_iff two_batch_subjects_def)
  have t: "build_timetable x val [''R1''] [''B1'', ''B2''] two_batch_subjects
             = Inl (KeyError (''B1'', ''Physics'', ''Mon'', 1, ''R1''))"
    unfolding build_timetable_def by (subst L) (rule timetable_fail [OF 1 2])
  have i': "int64_inputs orphan_subjects ref_teachers 5"
    by (simp add: int64_inputs_def int64_ok_def orphan_subjects_def ref_teachers_def)
  from build_model_ok [OF f i'] obtain m' x' sv' where
    b': "build_model [''R1''] [''B1''] orphan_subjects ref_teachers None 5 = Inr (m', x', sv')"
    by blast
  note d' = build_model_Inr(6) [OF b']
  let ?O = "(''Math'', \<lparr>sessions_per_week = 1, teacher = ''T1'', batch = ''B2''\<rparr>)"
  let ?L' = "[(d, s, b, si, r). d \<leftarrow> days, s \<leftarrow> slots, b \<leftarrow> [''B1''],
               si \<leftarrow> orphan_subjects, r \<leftarrow> [''R1'']]"
  have L': "?L' = [] @ (''Mon'', 1, ''B1'', ?O, ''R1'') # drop 1 ?L'"
    by (simp add: days_def slots_def orphan_subjects_def)
  have o2: "(''B1'', ''Math'', ''Mon'', 1, ''R1'') \<notin> dom x'"
    by (simp add: d' var_keys_iff orphan_subjects_def)
  have t': "build_timetable x' val [''R1''] [''B1''] orphan_subjects
             = Inl (KeyError (''B1'', ''Math'', ''Mon'', 1, ''R1''))"
    unfolding build_timetable_def by (subst L') (rule timetable_fail [OF _ o2], simp)
  from b t b' t' show ?thesis by (simp add: solve_timetable_debug_def)
qed

lemma concat_if_filter:
  "concat (map (\<lambda>y. if P y then [f y] else []) ys) = map f (filter P ys)"
  by (induction ys) auto

lemma report_eq:
  "report val sv =
     Constraint_check #
     map (\<lambda>(k, w, wh, s). Violation k w wh (val s)) (filter (\<lambda>(k, w, wh, s). 0 < val s) sv)"
proof -
  have "(\<lambda>(knd, wh, whn, slack). if 0 < val slack then [Violation knd wh whn (val slack)] else [])
          = (\<lambda>y. if (\<lambda>(k, w, wh, s). 0 < val s) y
                  then [(\<lambda>(k, w, wh, s). Violation k w wh (val s)) y] else [])"
    by (auto simp: fun_eq_iff)
  then show ?thesis
    unfolding report_def by (simp only: concat_if_filter)
qed

lemma room_in_all_softs:
  "r \<in> set rooms \<Longrightarrow> d \<in> set days \<Longrightarrow> s \<in> set slots \<Longrightarrow>
   room_clash subjs (r, d, s) \<in> set (all_softs rooms batches subjs tchrs fixed_classes mc)"
  by (force simp: all_softs_def)

lemma week_in_all_softs:
  "(t, tinfo) \<in> set tchrs \<Longrightarrow>
   teacher_week rooms subjs (t, tinfo) \<in> set (all_softs rooms batches subjs tchrs fixed_classes mc)"
  by (force simp: all_softs_def teacher_softs_def)

lemma day_in_all_softs:
  "(t, tinfo) \<in> set tchrs \<Longrightarrow> d \<in> set days \<Longrightarrow>
   teacher_day rooms subjs mc t d \<in> set (all_softs rooms batches subjs tchrs fixed_classes mc)"
  by (force simp: all_softs_def teacher_softs_def)

lemma fixed_in_all_softs:
  "k \<in> set (fixed_list fixed_classes) \<Longrightarrow>
   fixed_class k \<in> set (all_softs rooms batches subjs tchrs fixed_classes mc)"
  by (simp add: all_softs_def)

lemma count_list_distinct: "distinct ys \<Longrightarrow> y \<in> set ys \<Longrightarrow> count_list ys y = 1"
  by (induction ys) auto

lemma count_list_V: "count_list (map V vs) (V v) = count_list vs v"
  by (induction vs) auto

lemma slack_coeff:
  assumes b: "build_model rooms batches subjs tchrs fixed_classes mc = Inr (m, x, sv)"
    and e: "(k, w, wh, s) \<in> set sv"
  shows "objective_coeff m s = 1"
proof -
  from e have s: "s \<in> set (map slack_of sv)" by (force simp: slack_of_def)
  have "distinct (map slack_of sv)" unfolding slack_vars_upt [OF b] by simp
  from count_list_distinct [OF this s] show ?thesis
    unfolding objective_coeff_def build_model_Inr(4) [OF b] objective.case count_list_V .
qed

lemma soft_instance_built:
  assumes b: "build_model rooms batches subjs tchrs fixed_classes mc = Inr (m, x, sv)"
    and sp: "sp \<in> set (all_softs rooms batches subjs tchrs fixed_classes mc)"
  shows "\<exists>slack. soft_instance m x sv (keys sp) (lo sp) (hi sp) (\<lambda>lhs. mk sp lhs slack)
           (kind sp) (who sp) (when_label sp) slack \<and> objective_coeff m slack = 1"
proof -
  from soft_built [OF b sp] obtain v lhs where
    h: "lookup_all x (keys sp) = Inr lhs" "(kind sp, who sp, when_label sp, v) \<in> set sv"
      "v < length (variables m)" "lb (variables m ! v) = lo sp" "ub (variables m ! v) = hi sp"
      "mk sp lhs v \<in> set (constraints m)"
    by blast
  from h have "soft_instance m x sv (keys sp) (lo sp) (hi sp) (\<lambda>lhs. mk sp lhs v)
           (kind sp) (who sp) (when_label sp) v"
    unfolding soft_instance_def by blast
  with slack_coeff [OF b h(2)] show ?thesis by blast
qed

lemma entry_soft:
  assumes b: "build_model rooms batches subjs tchrs fixed_classes mc = Inr (m, x, sv)"
    and e: "(k, w, wh, s) \<in> set sv"
  shows "\<exists>sp \<in> set (all_softs rooms batches subjs tchrs fixed_classes mc).
           k = kind sp \<and> w = who sp \<and> wh = when_label sp \<and>
           soft_instance m x sv (keys sp) (lo sp) (hi sp) (\<lambda>lhs. mk sp lhs s) k w wh s"
proof -
  let ?sps = "all_softs rooms batches subjs tchrs fixed_classes mc"
  let ?n = "length (var_keys rooms subjs)"
  from e have "(k, w, wh, s) \<in> (\<lambda>(v, sp). entry_of sp v) ` set (enumerate ?n ?sps)"
    unfolding build_model_Inr(3) [OF b] by simp
  then obtain v sp where vs: "(v, sp) \<in> set (enumerate ?n ?sps)"
    and en: "(k, w, wh, s) = entry_of sp v"
    by auto
  from en have eq: "k = kind sp" "w = who sp" "wh = when_label sp" "s = v"
    by (simp_all add: entry_of_def)
  from vs have i: "?n \<le> v" "v - ?n < length ?sps" "?sps ! (v - ?n) = sp"
    by (auto simp: in_set_enumerate_eq)
  then have sp: "sp \<in> set ?sps" by auto
  have "constr_of x sp v \<in> set (constraints m)"
    unfolding build_model_Inr(2) [OF b] using vs by force
  then have c: "mk sp (map (the \<circ> x) (keys sp)) v \<in> set (constraints m)"
    by (simp add: constr_of_def)
  from build_model_Inr(5) [OF b] sp have "set (keys sp) \<subseteq> dom x" by blast
  then have l: "lookup_all x (keys sp) = Inr (map (the \<circ> x) (keys sp))" by (rule lookup_all_ok)
  from i have d: "v < length (variables m)" "variables m ! v = decl_of sp"
    by (simp_all add: build_model_Inr(1) [OF b] nth_append)
  from l c e d have "soft_instance m x sv (keys sp) (lo sp) (hi sp) (\<lambda>lhs. mk sp lhs s) k w wh s"
    unfolding soft_instance_def eq by (auto simp: decl_of_def)
  with sp eq show ?thesis by blast
qed

lemma length_teacher_softs:
  "length (concat (map (teacher_softs rooms subjs mc) tchrs)) = 6 * length tchrs"
  by (induction tchrs) (auto simp: teacher_softs_def days_def)

lemma length_all_softs:
  "length (all_softs rooms batches subjs tchrs fixed_classes mc) =
     length subjs + 25 * length batches + 25 * length rooms + 6 * length tchrs +
     length (fixed_list fixed_classes)"
proof -
  have 1: "length [batch_clash rooms subjs (b, d, s). b \<leftarrow> batches, d \<leftarrow> days, s \<leftarrow> slots]
             = 25 * length batches"
    by (induction batches) (simp_all add: days_def slots_def)
  have 2: "length [room_clash subjs (r, d, s). r \<leftarrow> rooms, d \<leftarrow> days, s \<leftarrow> slots]
             = 25 * length rooms"
    by (induction rooms) (simp_all add: days_def slots_def)
  show ?thesis
    unfolding all_softs_def length_append 1 2 length_teacher_softs by simp
qed

lemma subject_instance:
  assumes b: "build_model rooms batches subjs tchrs fixed_classes mc = Inr (m, x, sv)"
    and si: "(subj, info) \<in> set subjs"
  shows "\<exists>slack. soft_instance m x sv
           [(batch info, subj, d, s, r). d \<leftarrow> days, s \<leftarrow> slots, r \<leftarrow> rooms] 0 10
           (\<lambda>lhs. Eq (map V lhs @ [V slack]) [C (sessions_per_week info)])
           ''Subject'' subj (batch info) slack \<and> objective_coeff m slack = 1"
  using soft_instance_built [OF b subject_in_all_softs [OF si]]
  by (simp add: subject_weekly_def)

lemma batch_instance:
  assumes b: "build_model rooms batches subjs tchrs fixed_classes mc = Inr (m, x, sv)"
    and t: "bt \<in> set batches" "d \<in> set days" "sl \<in> set slots"
  shows "\<exists>slack. soft_instance m x sv
           [(bt, subj, d, sl, r). (subj, info) \<leftarrow> subjs, batch info = bt, r \<leftarrow> rooms] 0 1
           (\<lambda>lhs. Le (map V lhs) [C 1, V slack])
           ''BatchClash'' bt (d @ ''-'' @ str_int sl) slack \<and> objective_coeff m slack = 1"
  using soft_instance_built [OF b batch_in_all_softs [OF t]]
  by (simp add: batch_clash_def)

lemma room_instance:
  assumes b: "build_model rooms batches subjs tchrs fixed_classes mc = Inr (m, x, sv)"
    and t: "r \<in> set rooms" "d \<in> set days" "sl \<in> set slots"
  shows "\<exists>slack. soft_instance m x sv
           [(batch info, subj, d, sl, r). (subj, info) \<leftarrow> subjs] 0 1
           (\<lambda>lhs. Le (map V lhs) [C 1, V slack])
           ''RoomClash'' r (d @ ''-'' @ str_int sl) slack \<and> objective_coeff m slack = 1"
  using soft_instance_built [OF b room_in_all_softs [OF t]]
  by (simp add: room_clash_def)

lemma week_instance:
  assumes b: "build_model rooms batches subjs tchrs fixed_classes mc = Inr (m, x, sv)"
    and t: "(t, tinfo) \<in> set tchrs"
  shows "\<exists>slack. soft_instance m x sv
           [(batch info, subj, d, s, r).
              (subj, info) \<leftarrow> subjs, teacher info = t, d \<leftarrow> days, s \<leftarrow> slots, r \<leftarrow> rooms] 0 20
           (\<lambda>lhs. Le (map V lhs) [C (max_load tinfo), V slack])
           ''TeacherWeek'' t ''All'' slack \<and> objective_coeff m slack = 1"
  using soft_instance_built [OF b week_in_all_softs [OF t]]
  by (simp add: teacher_week_def)

lemma day_instance:
  assumes b: "build_model rooms batches subjs tchrs fixed_classes mc = Inr (m, x, sv)"
    and t: "(t, tinfo) \<in> set tchrs" "d \<in> set days"
  shows "\<exists>slack. soft_instance m x sv
           [(batch info, subj, d, s, r).
              (subj, info) \<leftarrow> subjs, teacher info = t, s \<leftarrow> slots, r \<leftarrow> rooms] 0 5
           (\<lambda>lhs. Le (map V lhs) [C mc, V slack])
           ''TeacherDay'' t d slack \<and> objective_coeff m slack = 1"
  using soft_instance_built [OF b day_in_all_softs [OF t]]
  by (simp add: teacher_day_def)

lemma fixed_instance:
  assumes b: "build_model rooms batches subjs tchrs fixed_classes mc = Inr (m, x, sv)"
    and t: "(bt, subj, d, sl, r) \<in> set (fixed_list fixed_classes)"
  shows "\<exists>slack. soft_instance m x sv [(bt, subj, d, sl, r)] 0 1
           (\<lambda>lhs. Eq (map V lhs @ [V slack]) [C 1])
           ''FixedClass'' bt (subj @ ''-'' @ d @ ''-'' @ str_int sl) slack \<and>
           objective_coeff m slack = 1"
  using soft_instance_built [OF b fixed_in_all_softs [OF t]]
  by (simp add: fixed_class_def)

lemma coeff_all:
  assumes b: "build_model rooms batches subjs tchrs fixed_classes mc = Inr (m, x, sv)"
  shows "objective_coeff m v =
           (if length (var_keys rooms subjs) \<le> v \<and> v < length (variables m) then 1 else 0)"
proof -
  have e: "objective_coeff m v = count_list [length (var_keys rooms subjs) ..< length (variables m)] v"
    unfolding objective_coeff_def build_model_Inr(4) [OF b] objective.case count_list_V
      slack_vars_upt [OF b] ..
  show ?thesis
  proof (cases "length (var_keys rooms subjs) \<le> v \<and> v < length (variables m)")
    case True
    then have "v \<in> set [length (var_keys rooms subjs) ..< length (variables m)]" by simp
    from count_list_distinct [OF distinct_upt this] True show ?thesis by (simp add: e)
  next
    case False
    then have "v \<notin> set [length (var_keys rooms subjs) ..< length (variables m)]" by auto
    then have "count_list [length (var_keys rooms subjs) ..< length (variables m)] v = 0"
      by (simp add: count_list_0_iff)
    with False show ?thesis by (simp add: e)
  qed
qed

text \<open>
  Claim C7. The objective of the built model is the minimisation of the plain sum of the
  slack variables recorded in \<^verbatim>\<open>slack_vars\<close>. These are exactly the variables created
  after the decision variables, each once: a slack variable has coefficient one in the
  sum and a decision variable is not in it, so the objective's value is the sum of the
  slack values and one more unit of any slack costs exactly one. Every constraint instance
  of every family is in the model with a slack of its own that is in the sum with
  coefficient one: the weekly requirement of every subject, the clash constraint of every
  batch, day and slot and of every room, day and slot, the weekly load of every teacher
  and the daily load of every teacher and day, and the pin of every fixed class.
\<close>

theorem c7_objective_unweighted_slack_sum:
  assumes b: "build_model rooms batches subjs tchrs fixed_classes mc = Inr (m, x, sv)"
  shows "objective m = MinimizeObj (map V (map slack_of sv)) \<and>
         map slack_of sv = [length (var_keys rooms subjs) ..< length (variables m)] \<and>
         (\<forall>a. eval_sum a (map V (map slack_of sv)) = sum_list (map (\<lambda>e. a (slack_of e)) sv)) \<and>
         (\<forall>a e. e \<in> set sv \<longrightarrow>
            eval_sum (a(slack_of e := a (slack_of e) + 1)) (map V (map slack_of sv))
              = eval_sum a (map V (map slack_of sv)) + 1) \<and>
         (\<forall>v. objective_coeff m v =
            (if length (var_keys rooms subjs) \<le> v \<and> v < length (variables m) then 1 else 0)) \<and>
         (\<forall>(subj, info) \<in> set subjs.
            \<exists>slack. soft_instance m x sv
              [(batch info, subj, d, s, r). d \<leftarrow> days, s \<leftarrow> slots, r \<leftarrow> rooms] 0 10
              (\<lambda>lhs. Eq (map V lhs @ [V slack]) [C (sessions_per_week info)])
              ''Subject'' subj (batch info) slack \<and> objective_coeff m slack = 1) \<and>
         (\<forall>bt \<in> set batches. \<forall>d \<in> set days. \<forall>sl \<in> set slots.
            \<exists>slack. soft_instance m x sv
              [(bt, subj, d, sl, r). (subj, info) \<leftarrow> subjs, batch info = bt, r \<leftarrow> rooms] 0 1
              (\<lambda>lhs. Le (map V lhs) [C 1, V slack])
              ''BatchClash'' bt (d @ ''-'' @ str_int sl) slack \<and> objective_coeff m slack = 1) \<and>
         (\<forall>r \<in> set rooms. \<forall>d \<in> set days. \<forall>sl \<in> set slots.
            \<exists>slack. soft_instance m x sv
              [(batch info, subj, d, sl, r). (subj, info) \<leftarrow> subjs] 0 1
              (\<lambda>lhs. Le (map V lhs) [C 1, V slack])
              ''RoomClash'' r (d @ ''-'' @ str_int sl) slack \<and> objective_coeff m slack = 1) \<and>
         (\<forall>(t, tinfo) \<in> set tchrs.
            (\<exists>slack. soft_instance m x sv
               [(batch info, subj, d, s, r).
                  (subj, info) \<leftarrow> subjs, teacher info = t, d \<leftarrow> days, s \<leftarrow> slots, r \<leftarrow> rooms] 0 20
               (\<lambda>lhs. Le (map V lhs) [C (max_load tinfo), V slack])
               ''TeacherWeek'' t ''All'' slack \<and> objective_coeff m slack = 1) \<and>
            (\<forall>d \<in> set days.
               \<exists>slack. soft_instance m x sv
                 [(batch info, subj, d, s, r).
                    (subj, info) \<leftarrow> subjs, teacher info = t, s \<leftarrow> slots, r \<leftarrow> rooms] 0 5
                 (\<lambda>lhs. Le (map V lhs) [C mc, V slack])
                 ''TeacherDay'' t d slack \<and> objective_coeff m slack = 1)) \<and>
         (\<forall>(bt, subj, d, sl, r) \<in> set (fixed_list fixed_classes).
            \<exists>slack. soft_instance m x sv [(bt, subj, d, sl, r)] 0 1
              (\<lambda>lhs. Eq (map V lhs @ [V slack]) [C 1])
              ''FixedClass'' bt (subj @ ''-'' @ d @ ''-'' @ str_int sl) slack \<and>
              objective_coeff m slack = 1)"
proof -
  note u = slack_vars_upt [OF b]
  have d: "distinct (map slack_of sv)" unfolding u by simp
  have unit: "eval_sum (a(slack_of e := a (slack_of e) + 1)) (map V (map slack_of sv))
              = eval_sum a (map V (map slack_of sv)) + 1" if "e \<in> set sv" for a e
  proof -
    from that have m: "slack_of e \<in> set (map slack_of sv)" by simp
    from sum_list_upd [OF d m, of a "a (slack_of e) + 1"] show ?thesis
      unfolding eval_sum_V by linarith
  qed
  have ev: "eval_sum a (map V (map slack_of sv)) = sum_list (map (\<lambda>e. a (slack_of e)) sv)" for a
    unfolding eval_sum_V by (simp add: comp_def)
  note 1 = build_model_Inr(4) [OF b]
  have cf: "\<forall>v. objective_coeff m v =
            (if length (var_keys rooms subjs) \<le> v \<and> v < length (variables m) then 1 else 0)"
    using coeff_all [OF b] by blast
  have un: "\<forall>a e. e \<in> set sv \<longrightarrow>
            eval_sum (a(slack_of e := a (slack_of e) + 1)) (map V (map slack_of sv))
              = eval_sum a (map V (map slack_of sv)) + 1"
    using unit by blast
  have ev': "\<forall>a. eval_sum a (map V (map slack_of sv)) = sum_list (map (\<lambda>e. a (slack_of e)) sv)"
    using ev by blast
  have 2: "\<forall>(subj, info) \<in> set subjs.
            \<exists>slack. soft_instance m x sv
              [(batch info, subj, d, s, r). d \<leftarrow> days, s \<leftarrow> slots, r \<leftarrow> rooms] 0 10
              (\<lambda>lhs. Eq (map V lhs @ [V slack]) [C (sessions_per_week info)])
              ''Subject'' subj (batch info) slack \<and> objective_coeff m slack = 1"
    using subject_instance [OF b] by blast
  have 3: "\<forall>bt \<in> set batches. \<forall>d \<in> set days. \<forall>sl \<in> set slots.
            \<exists>slack. soft_instance m x sv
              [(bt, subj, d, sl, r). (subj, info) \<leftarrow> subjs, batch info = bt, r \<leftarrow> rooms] 0 1
              (\<lambda>lhs. Le (map V lhs) [C 1, V slack])
              ''BatchClash'' bt (d @ ''-'' @ str_int sl) slack \<and> objective_coeff m slack = 1"
    using batch_instance [OF b] by blast
  have 4: "\<forall>r \<in> set rooms. \<forall>d \<in> set days. \<forall>sl \<in> set slots.
            \<exists>slack. soft_instance m x sv
              [(batch info, subj, d, sl, r). (subj, info) \<leftarrow> subjs] 0 1
              (\<lambda>lhs. Le (map V lhs) [C 1, V slack])
              ''RoomClash'' r (d @ ''-'' @ str_int sl) slack \<and> objective_coeff m slack = 1"
    using room_instance [OF b] by blast
  have 5: "\<forall>(t, tinfo) \<in> set tchrs.
            (\<exists>slack. soft_instance m x sv
               [(batch info, subj, d, s, r).
                  (subj, info) \<leftarrow> subjs, teacher info = t, d \<leftarrow> days, s \<leftarrow> slots, r \<leftarrow> rooms] 0 20
               (\<lambda>lhs. Le (map V lhs) [C (max_load tinfo), V slack])
               ''TeacherWeek'' t ''All'' slack \<and> objective_coeff m slack = 1) \<and>
            (\<forall>d \<in> set days.
               \<exists>slack. soft_instance m x sv
                 [(batch info, subj, d, s, r).
                    (subj, info) \<leftarrow> subjs, teacher info = t, s \<leftarrow> slots, r \<leftarrow> rooms] 0 5
                 (\<lambda>lhs. Le (map V lhs) [C mc, V slack])
                 ''TeacherDay'' t d slack \<and> objective_coeff m slack = 1)"
    using week_instance [OF b] day_instance [OF b] by blast
  have 6: "\<forall>(bt, subj, d, sl, r) \<in> set (fixed_list fixed_classes).
            \<exists>slack. soft_instance m x sv [(bt, subj, d, sl, r)] 0 1
              (\<lambda>lhs. Eq (map V lhs @ [V slack]) [C 1])
              ''FixedClass'' bt (subj @ ''-'' @ d @ ''-'' @ str_int sl) slack \<and>
              objective_coeff m slack = 1"
    using fixed_instance [OF b] by blast
  show ?thesis
    by (intro conjI) (rule 1, rule u, rule ev', rule un, rule cf, rule 2, rule 3, rule 4, rule 5, rule 6)
qed

lemma entry_family:
  assumes b: "build_model rooms batches subjs tchrs fixed_classes mc = Inr (m, x, sv)"
    and e: "(k, w, wh, s) \<in> set sv"
  shows
    "(\<exists>subj info. (subj, info) \<in> set subjs \<and>
        k = ''Subject'' \<and> w = subj \<and> wh = batch info \<and>
        soft_instance m x sv
          [(batch info, subj, d, sl, r). d \<leftarrow> days, sl \<leftarrow> slots, r \<leftarrow> rooms] 0 10
          (\<lambda>lhs. Eq (map V lhs @ [V s]) [C (sessions_per_week info)]) k w wh s) \<or>
     (\<exists>bt d sl. bt \<in> set batches \<and> d \<in> set days \<and> sl \<in> set slots \<and>
        k = ''BatchClash'' \<and> w = bt \<and> wh = d @ ''-'' @ str_int sl \<and>
        soft_instance m x sv
          [(bt, subj, d, sl, r). (subj, info) \<leftarrow> subjs, batch info = bt, r \<leftarrow> rooms] 0 1
          (\<lambda>lhs. Le (map V lhs) [C 1, V s]) k w wh s) \<or>
     (\<exists>r d sl. r \<in> set rooms \<and> d \<in> set days \<and> sl \<in> set slots \<and>
        k = ''RoomClash'' \<and> w = r \<and> wh = d @ ''-'' @ str_int sl \<and>
        soft_instance m x sv
          [(batch info, subj, d, sl, r). (subj, info) \<leftarrow> subjs] 0 1
          (\<lambda>lhs. Le (map V lhs) [C 1, V s]) k w wh s) \<or>
     (\<exists>t tinfo. (t, tinfo) \<in> set tchrs \<and>
        k = ''TeacherWeek'' \<and> w = t \<and> wh = ''All'' \<and>
        soft_instance m x sv
          [(batch info, subj, d, sl, r).
             (subj, info) \<leftarrow> subjs, teacher info = t, d \<leftarrow> days, sl \<leftarrow> slots, r \<leftarrow> rooms] 0 20
          (\<lambda>lhs. Le (map V lhs) [C (max_load tinfo), V s]) k w wh s) \<or>
     (\<exists>t tinfo d. (t, tinfo) \<in> set tchrs \<and> d \<in> set days \<and>
        k = ''TeacherDay'' \<and> w = t \<and> wh = d \<and>
        soft_instance m x sv
          [(batch info, subj, d, sl, r).
             (subj, info) \<leftarrow> subjs, teacher info = t, sl \<leftarrow> slots, r \<leftarrow> rooms] 0 5
          (\<lambda>lhs. Le (map V lhs) [C mc, V s]) k w wh s) \<or>
     (\<exists>bt subj d sl r. (bt, subj, d, sl, r) \<in> set (fixed_list fixed_classes) \<and>
        k = ''FixedClass'' \<and> w = bt \<and> wh = subj @ ''-'' @ d @ ''-'' @ str_int sl \<and>
        soft_instance m x sv [(bt, subj, d, sl, r)] 0 1
          (\<lambda>lhs. Eq (map V lhs @ [V s]) [C 1]) k w wh s)"
proof -
  from entry_soft [OF b e] obtain sp where
    sp: "sp \<in> set (all_softs rooms batches subjs tchrs fixed_classes mc)"
    and l: "k = kind sp" "w = who sp" "wh = when_label sp"
    and i: "soft_instance m x sv (keys sp) (lo sp) (hi sp) (\<lambda>lhs. mk sp lhs s) k w wh s"
    by blast
  from sp show ?thesis
  proof (cases rule: all_softs_cases)
    case (subject si)
    obtain subj info where si: "si = (subj, info)" by (cases si)
    from subject(1) l i have "(subj, info) \<in> set subjs \<and>
        k = ''Subject'' \<and> w = subj \<and> wh = batch info \<and>
        soft_instance m x sv
          [(batch info, subj, d, sl, r). d \<leftarrow> days, sl \<leftarrow> slots, r \<leftarrow> rooms] 0 10
          (\<lambda>lhs. Eq (map V lhs @ [V s]) [C (sessions_per_week info)]) k w wh s"
      unfolding subject(2) si by (simp add: subject_weekly_def)
    then show ?thesis by (intro disjI1 exI)
  next
    case (batch bt d sl)
    from batch(1,2,3) l i have "bt \<in> set batches \<and> d \<in> set days \<and> sl \<in> set slots \<and>
        k = ''BatchClash'' \<and> w = bt \<and> wh = d @ ''-'' @ str_int sl \<and>
        soft_instance m x sv
          [(bt, subj, d, sl, r). (subj, info) \<leftarrow> subjs, batch info = bt, r \<leftarrow> rooms] 0 1
          (\<lambda>lhs. Le (map V lhs) [C 1, V s]) k w wh s"
      unfolding batch(4) by (simp add: batch_clash_def)
    then show ?thesis by (intro disjI2 [OF disjI1] exI)
  next
    case (room r d sl)
    from room(1,2,3) l i have "r \<in> set rooms \<and> d \<in> set days \<and> sl \<in> set slots \<and>
        k = ''RoomClash'' \<and> w = r \<and> wh = d @ ''-'' @ str_int sl \<and>
        soft_instance m x sv
          [(batch info, subj, d, sl, r). (subj, info) \<leftarrow> subjs] 0 1
          (\<lambda>lhs. Le (map V lhs) [C 1, V s]) k w wh s"
      unfolding room(4) by (simp add: room_clash_def)
    then show ?thesis by (intro disjI2 [OF disjI2 [OF disjI1]] exI)
  next
    case (week t tinfo)
    from week(1) l i have "(t, tinfo) \<in> set tchrs \<and>
        k = ''TeacherWeek'' \<and> w = t \<and> wh = ''All'' \<and>
        soft_instance m x sv
          [(batch info, subj, d, sl, r).
             (subj, info) \<leftarrow> subjs, teacher info = t, d \<leftarrow> days, sl \<leftarrow> slots, r \<leftarrow> rooms] 0 20
          (\<lambda>lhs. Le (map V lhs) [C (max_load tinfo), V s]) k w wh s"
      unfolding week(2) by (simp add: teacher_week_def)
    then show ?thesis by (intro disjI2 [OF disjI2 [OF disjI2 [OF disjI1]]] exI)
  next
    case (day t tinfo d)
    from day(1,2) l i have "(t, tinfo) \<in> set tchrs \<and> d \<in> set days \<and>
        k = ''TeacherDay'' \<and> w = t \<and> wh = d \<and>
        soft_instance m x sv
          [(batch info, subj, d, sl, r).
             (subj, info) \<leftarrow> subjs, teacher info = t, sl \<leftarrow> slots, r \<leftarrow> rooms] 0 5
          (\<lambda>lhs. Le (map V lhs) [C mc, V s]) k w wh s"
      unfolding day(3) by (simp add: teacher_day_def)
    then show ?thesis by (intro disjI2 [OF disjI2 [OF disjI2 [OF disjI2 [OF disjI1]]]] exI)
  next
    case (fixed fk)
    obtain bt subj d sl r where fk: "fk = (bt, subj, d, sl, r)" by (cases fk)
    from fixed(1) l i have "(bt, subj, d, sl, r) \<in> set (fixed_list fixed_classes) \<and>
        k = ''FixedClass'' \<and> w = bt \<and> wh = subj @ ''-'' @ d @ ''-'' @ str_int sl \<and>
        soft_instance m x sv [(bt, subj, d, sl, r)] 0 1
          (\<lambda>lhs. Eq (map V lhs @ [V s]) [C 1]) k w wh s"
      unfolding fixed(2) fk by (simp add: fixed_class_def)
    then show ?thesis by (intro disjI2 [OF disjI2 [OF disjI2 [OF disjI2 [OF disjI2]]]] exI)
  qed
qed

lemma instance_reported:
  assumes b: "build_model rooms batches subjs tchrs fixed_classes mc = Inr (m, x, sv)"
    and sol: "solve m = (st, val)" "st = OPTIMAL \<or> st = FEASIBLE"
    and sp: "sp \<in> set (all_softs rooms batches subjs tchrs fixed_classes mc)"
  shows "\<exists>slack. soft_instance m x sv (keys sp) (lo sp) (hi sp) (\<lambda>lhs. mk sp lhs slack)
           (kind sp) (who sp) (when_label sp) slack \<and>
           (0 < val slack \<longrightarrow>
              Violation (kind sp) (who sp) (when_label sp) (val slack)
                \<in> set (fst (solve_timetable_debug solve rooms batches subjs tchrs fixed_classes mc)))"
proof -
  from soft_instance_built [OF b sp] obtain slack where
    i: "soft_instance m x sv (keys sp) (lo sp) (hi sp) (\<lambda>lhs. mk sp lhs slack)
           (kind sp) (who sp) (when_label sp) slack"
    by blast
  then have e: "(kind sp, who sp, when_label sp, slack) \<in> set sv"
    unfolding soft_instance_def by blast
  have "Violation (kind sp) (who sp) (when_label sp) (val slack)
          \<in> set (fst (solve_timetable_debug solve rooms batches subjs tchrs fixed_classes mc))"
    if "0 < val slack"
    unfolding printed_ok [where solve = solve and val = val and st = st, OF b sol]
    by (rule report_mem [where val = val, OF e that])
  with i show ?thesis by blast
qed

text \<open>
  Claim C6, as amended. After a successful solve the printed report is the header line
  followed by exactly one violation line for each entry of the slack list whose value is
  greater than zero, in order, carrying the entry's kind, entity, context label and the
  value. The slack list holds every slack variable of the model exactly once (they are the
  variables created after the decision variables), one per constraint. Every entry
  belongs to a constraint instance of one of the six families: its slack is the slack
  variable of that instance's constraint and its labels are that instance's. Conversely
  every constraint instance of every family has an entry, whose violation line is
  printed when its slack is positive. The context label is day-slot for batch and room
  clashes and "All" for the weekly teacher load; it is the subject's batch for a
  subject-weekly slack, the day for a daily teacher load, and subject-day-slot for a
  fixed class.
\<close>

theorem c6_report_complete:
  assumes b: "build_model rooms batches subjs tchrs fixed_classes mc = Inr (m, x, sv)"
    and sol: "solve m = (st, val)" "st = OPTIMAL \<or> st = FEASIBLE"
  shows "fst (solve_timetable_debug solve rooms batches subjs tchrs fixed_classes mc) =
       Constraint_check #
       map (\<lambda>(k, w, wh, s). Violation k w wh (val s)) (filter (\<lambda>(k, w, wh, s). 0 < val s) sv) \<and>
     map slack_of sv = [length (var_keys rooms subjs) ..< length (variables m)] \<and>
     length sv = length subjs + 25 * length batches + 25 * length rooms + 6 * length tchrs +
                   length (fixed_list fixed_classes) \<and>
     length (constraints m) = length sv \<and>
     (\<forall>(k, w, wh, s) \<in> set sv.
        (\<exists>subj info. (subj, info) \<in> set subjs \<and>
           k = ''Subject'' \<and> w = subj \<and> wh = batch info \<and>
           soft_instance m x sv
             [(batch info, subj, d, sl, r). d \<leftarrow> days, sl \<leftarrow> slots, r \<leftarrow> rooms] 0 10
             (\<lambda>lhs. Eq (map V lhs @ [V s]) [C (sessions_per_week info)]) k w wh s) \<or>
        (\<exists>bt d sl. bt \<in> set batches \<and> d \<in> set days \<and> sl \<in> set slots \<and>
           k = ''BatchClash'' \<and> w = bt \<and> wh = d @ ''-'' @ str_int sl \<and>
           soft_instance m x sv
             [(bt, subj, d, sl, r). (subj, info) \<leftarrow> subjs, batch info = bt, r \<leftarrow> rooms] 0 1
             (\<lambda>lhs. Le (map V lhs) [C 1, V s]) k w wh s) \<or>
        (\<exists>r d sl. r \<in> set rooms \<and> d \<in> set days \<and> sl \<in> set slots \<and>
           k = ''RoomClash'' \<and> w = r \<and> wh = d @ ''-'' @ str_int sl \<and>
           soft_instance m x sv
             [(batch info, subj, d, sl, r). (subj, info) \<leftarrow> subjs] 0 1
             (\<lambda>lhs. Le (map V lhs) [C 1, V s]) k w wh s) \<or>
        (\<exists>t tinfo. (t, tinfo) \<in> set tchrs \<and>
           k = ''TeacherWeek'' \<and> w = t \<and> wh = ''All'' \<and>
           soft_instance m x sv
             [(batch info, subj, d, sl, r).
                (subj, info) \<leftarrow> subjs, teacher info = t, d \<leftarrow> days, sl \<leftarrow> slots, r \<leftarrow> rooms] 0 20
             (\<lambda>lhs. Le (map V lhs) [C (max_load tinfo), V s]) k w wh s) \<or>
        (\<exists>t tinfo d. (t, tinfo) \<in> set tchrs \<and> d \<in> set days \<and>
           k = ''TeacherDay'' \<and> w = t \<and> wh = d \<and>
           soft_instance m x sv
             [(batch info, subj, d, sl, r).
                (subj, info) \<leftarrow> subjs, teacher info = t, sl \<leftarrow> slots, r \<leftarrow> rooms] 0 5
             (\<lambda>lhs. Le (map V lhs) [C mc, V s]) k w wh s) \<or>
        (\<exists>bt subj d sl r. (bt, subj, d, sl, r) \<in> set (fixed_list fixed_classes) \<and>
           k = ''FixedClass'' \<and> w = bt \<and> wh = subj @ ''-'' @ d @ ''-'' @ str_int sl \<and>
           soft_instance m x sv [(bt, subj, d, sl, r)] 0 1
             (\<lambda>lhs. Eq (map V lhs @ [V s]) [C 1]) k w wh s)) \<and>
     (\<forall>(subj, info) \<in> set subjs.
        \<exists>slack. soft_instance m x sv
          [(batch info, subj, d, s, r). d \<leftarrow> days, s \<leftarrow> slots, r \<leftarrow> rooms] 0 10
          (\<lambda>lhs. Eq (map V lhs @ [V slack]) [C (sessions_per_week info)])
          ''Subject'' subj (batch info) slack \<and>
          (0 < val slack \<longrightarrow> Violation ''Subject'' subj (batch info) (val slack)
             \<in> set (fst (solve_timetable_debug solve rooms batches subjs tchrs fixed_classes mc)))) \<and>
     (\<forall>bt \<in> set batches. \<forall>d \<in> set days. \<forall>sl \<in> set slots.
        \<exists>slack. soft_instance m x sv
          [(bt, subj, d, sl, r). (subj, info) \<leftarrow> subjs, batch info = bt, r \<leftarrow> rooms] 0 1
          (\<lambda>lhs. Le (map V lhs) [C 1, V slack])
          ''BatchClash'' bt (d @ ''-'' @ str_int sl) slack \<and>
          (0 < val slack \<longrightarrow> Violation ''BatchClash'' bt (d @ ''-'' @ str_int sl) (val slack)
             \<in> set (fst (solve_timetable_debug solve rooms batches subjs tchrs fixed_classes mc)))) \<and>
     (\<forall>r \<in> set rooms. \<forall>d \<in> set days. \<forall>sl \<in> set slots.
        \<exists>slack. soft_instance m x sv
          [(batch info, subj, d, sl, r). (subj, info) \<leftarrow> subjs] 0 1
          (\<lambda>lhs. Le (map V lhs) [C 1, V slack])
          ''RoomClash'' r (d @ ''-'' @ str_int sl) slack \<and>
          (0 < val slack \<longrightarrow> Violation ''RoomClash'' r (d @ ''-'' @ str_int sl) (val slack)
             \<in> set (fst (solve_timetable_debug solve rooms batches subjs tchrs fixed_classes mc)))) \<and>
     (\<forall>(t, tinfo) \<in> set tchrs.
        (\<exists>slack. soft_instance m x sv
           [(batch info, subj, d, s, r).
              (subj, info) \<leftarrow> subjs, teacher info = t, d \<leftarrow> days, s \<leftarrow> slots, r \<leftarrow> rooms] 0 20
           (\<lambda>lhs. Le (map V lhs) [C (max_load tinfo), V slack])
           ''TeacherWeek'' t ''All'' slack \<and>
           (0 < val slack \<longrightarrow> Violation ''TeacherWeek'' t ''All'' (val slack)
              \<in> set (fst (solve_timetable_debug solve rooms batches subjs tchrs fixed_classes mc)))) \<and>
        (\<forall>d \<in> set days.
           \<exists>slack. soft_instance m x sv
             [(batch info, subj, d, s, r).
                (subj, info) \<leftarrow> subjs, teacher info = t, s \<leftarrow> slots, r \<leftarrow> rooms] 0 5
             (\<lambda>lhs. Le (map V lhs) [C mc, V slack])
             ''TeacherDay'' t d slack \<and>
             (0 < val slack \<longrightarrow> Violation ''TeacherDay'' t d (val slack)
                \<in> set (fst (solve_timetable_debug solve rooms batches subjs tchrs fixed_classes mc))))) \<and>
     (\<forall>(bt, subj, d, sl, r) \<in> set (fixed_list fixed_classes).
        \<exists>slack. soft_instance m x sv [(bt, subj, d, sl, r)] 0 1
          (\<lambda>lhs. Eq (map V lhs @ [V slack]) [C 1])
          ''FixedClass'' bt (subj @ ''-'' @ d @ ''-'' @ str_int sl) slack \<and>
          (0 < val slack \<longrightarrow>
             Violation ''FixedClass'' bt (subj @ ''-'' @ d @ ''-'' @ str_int sl) (val slack)
               \<in> set (fst (solve_timetable_debug solve rooms batches subjs tchrs fixed_classes mc))))"
proof -
  note ir = instance_reported [where solve = solve and val = val and st = st, OF b sol]
  have 1: "fst (solve_timetable_debug solve rooms batches subjs tchrs fixed_classes mc) =
       Constraint_check #
       map (\<lambda>(k, w, wh, s). Violation k w wh (val s)) (filter (\<lambda>(k, w, wh, s). 0 < val s) sv)"
    by (simp only: printed_ok [where solve = solve and val = val and st = st, OF b sol] report_eq)
  note 2 = slack_vars_upt [OF b]
  have 3: "length sv = length subjs + 25 * length batches + 25 * length rooms + 6 * length tchrs +
                   length (fixed_list fixed_classes)"
    unfolding build_model_Inr(3) [OF b] by (simp only: length_map length_enumerate length_all_softs)
  have 4: "length (constraints m) = length sv"
    unfolding build_model_Inr(3) [OF b] build_model_Inr(2) [OF b] by simp
  have 5: "\<forall>(k, w, wh, s) \<in> set sv.
        (\<exists>subj info. (subj, info) \<in> set subjs \<and>
           k = ''Subject'' \<and> w = subj \<and> wh = batch info \<and>
           soft_instance m x sv
             [(batch info, subj, d, sl, r). d \<leftarrow> days, sl \<leftarrow> slots, r \<leftarrow> rooms] 0 10
             (\<lambda>lhs. Eq (map V lhs @ [V s]) [C (sessions_per_week info)]) k w wh s) \<or>
        (\<exists>bt d sl. bt \<in> set batches \<and> d \<in> set days \<and> sl \<in> set slots \<and>
           k = ''BatchClash'' \<and> w = bt \<and> wh = d @ ''-'' @ str_int sl \<and>
           soft_instance m x sv
             [(bt, subj, d, sl, r). (subj, info) \<leftarrow> subjs, batch info = bt, r \<leftarrow> rooms] 0 1
             (\<lambda>lhs. Le (map V lhs) [C 1, V s]) k w wh s) \<or>
        (\<exists>r d sl. r \<in> set rooms \<and> d \<in> set days \<and> sl \<in> set slots \<and>
           k = ''RoomClash'' \<and> w = r \<and> wh = d @ ''-'' @ str_int sl \<and>
           soft_instance m x sv
             [(batch info, subj, d, sl, r). (subj, info) \<leftarrow> subjs] 0 1
             (\<lambda>lhs. Le (map V lhs) [C 1, V s]) k w wh s) \<or>
        (\<exists>t tinfo. (t, tinfo) \<in> set tchrs \<and>
           k = ''TeacherWeek'' \<and> w = t \<and> wh = ''All'' \<and>
           soft_instance m x sv
             [(batch info, subj, d, sl, r).
                (subj, info) \<leftarrow> subjs, teacher info = t, d \<leftarrow> days, sl \<leftarrow> slots, r \<leftarrow> rooms] 0 20
             (\<lambda>lhs. Le (map V lhs) [C (max_load tinfo), V s]) k w wh s) \<or>
        (\<exists>t tinfo d. (t, tinfo) \<in> set tchrs \<and> d \<in> set days \<and>
           k = ''TeacherDay'' \<and> w = t \<and> wh = d \<and>
           soft_instance m x sv
             [(batch info, subj, d, sl, r).
                (subj, info) \<leftarrow> subjs, teacher info = t, sl \<leftarrow> slots, r \<leftarrow> rooms] 0 5
             (\<lambda>lhs. Le (map V lhs) [C mc, V s]) k w wh s) \<or>
        (\<exists>bt subj d sl r. (bt, subj, d, sl, r) \<in> set (fixed_list fixed_classes) \<and>
           k = ''FixedClass'' \<and> w = bt \<and> wh = subj @ ''-'' @ d @ ''-'' @ str_int sl \<and>
           soft_instance m x sv [(bt, subj, d, sl, r)] 0 1
             (\<lambda>lhs. Eq (map V lhs @ [V s]) [C 1]) k w wh s)"
  proof (intro ballI)
    fix e assume e: "e \<in> set sv"
    obtain k w wh s where eq: "e = (k, w, wh, s)" by (cases e)
    from entry_family [OF b e [unfolded eq]]
    show "case e of (k, w, wh, s) \<Rightarrow>
        (\<exists>subj info. (subj, info) \<in> set subjs \<and>
           k = ''Subject'' \<and> w = subj \<and> wh = batch info \<and>
           soft_instance m x sv
             [(batch info, subj, d, sl, r). d \<leftarrow> days, sl \<leftarrow> slots, r \<leftarrow> rooms] 0 10
             (\<lambda>lhs. Eq (map V lhs @ [V s]) [C (sessions_per_week info)]) k w wh s) \<or>
        (\<exists>bt d sl. bt \<in> set batches \<and> d \<in> set days \<and> sl \<in> set slots \<and>
           k = ''BatchClash'' \<and> w = bt \<and> wh = d @ ''-'' @ str_int sl \<and>
           soft_instance m x sv
             [(bt, subj, d, sl, r). (subj, info) \<leftarrow> subjs, batch info = bt, r \<leftarrow> rooms] 0 1
             (\<lambda>lhs. Le (map V lhs) [C 1, V s]) k w wh s) \<or>
        (\<exists>r d sl. r \<in> set rooms \<and> d \<in> set days \<and> sl \<in> set slots \<and>
           k = ''RoomClash'' \<and> w = r \<and> wh = d @ ''-'' @ str_int sl \<and>
           soft_instance m x sv
             [(batch info, subj, d, sl, r). (subj, info) \<leftarrow> subjs] 0 1
             (\<lambda>lhs. Le (map V lhs) [C 1, V s]) k w wh s) \<or>
        (\<exists>t tinfo. (t, tinfo) \<in> set tchrs \<and>
           k = ''TeacherWeek'' \<and> w = t \<and> wh = ''All'' \<and>
           soft_instance m x sv
             [(batch info, subj, d, sl, r).
                (subj, info) \<leftarrow> subjs, teacher info = t, d \<leftarrow> days, sl \<leftarrow> slots, r \<leftarrow> rooms] 0 20
             (\<lambda>lhs. Le (map V lhs) [C (max_load tinfo), V s]) k w wh s) \<or>
        (\<exists>t tinfo d. (t, tinfo) \<in> set tchrs \<and> d \<in> set days \<and>
           k = ''TeacherDay'' \<and> w = t \<and> wh = d \<and>
           soft_instance m x sv
             [(batch info, subj, d, sl, r).
                (subj, info) \<leftarrow> subjs, teacher info = t, sl \<leftarrow> slots, r \<leftarrow> rooms] 0 5
             (\<lambda>lhs. Le (map V lhs) [C mc, V s]) k w wh s) \<or>
        (\<exists>bt subj d sl r. (bt, subj, d, sl, r) \<in> set (fixed_list fixed_classes) \<and>
           k = ''FixedClass'' \<and> w = bt \<and> wh = subj @ ''-'' @ d @ ''-'' @ str_int sl \<and>
           soft_instance m x sv [(bt, subj, d, sl, r)] 0 1
             (\<lambda>lhs. Eq (map V lhs @ [V s]) [C 1]) k w wh s)"
      unfolding eq prod.case .
  qed
  have 6: "\<forall>(subj, info) \<in> set subjs.
        \<exists>slack. soft_instance m x sv
          [(batch info, subj, d, s, r). d \<leftarrow> days, s \<leftarrow> slots, r \<leftarrow> rooms] 0 10
          (\<lambda>lhs. Eq (map V lhs @ [V slack]) [C (sessions_per_week info)])
          ''Subject'' subj (batch info) slack \<and>
          (0 < val slack \<longrightarrow> Violation ''Subject'' subj (batch info) (val slack)
             \<in> set (fst (solve_timetable_debug solve rooms batches subjs tchrs fixed_classes mc)))"
  proof (intro ballI)
    fix si assume "si \<in> set subjs"
    from ir [OF subject_in_all_softs [OF this]]
    show "case si of (subj, info) \<Rightarrow>
        \<exists>slack. soft_instance m x sv
          [(batch info, subj, d, s, r). d \<leftarrow> days, s \<leftarrow> slots, r \<leftarrow> rooms] 0 10
          (\<lambda>lhs. Eq (map V lhs @ [V slack]) [C (sessions_per_week info)])
          ''Subject'' subj (batch info) slack \<and>
          (0 < val slack \<longrightarrow> Violation ''Subject'' subj (batch info) (val slack)
             \<in> set (fst (solve_timetable_debug solve rooms batches subjs tchrs fixed_classes mc)))"
      by (cases si) (simp add: subject_weekly_def)
  qed
  have 7: "\<forall>bt \<in> set batches. \<forall>d \<in> set days. \<forall>sl \<in> set slots.
        \<exists>slack. soft_instance m x sv
          [(bt, subj, d, sl, r). (subj, info) \<leftarrow> subjs, batch info = bt, r \<leftarrow> rooms] 0 1
          (\<lambda>lhs. Le (map V lhs) [C 1, V slack])
          ''BatchClash'' bt (d @ ''-'' @ str_int sl) slack \<and>
          (0 < val slack \<longrightarrow> Violation ''BatchClash'' bt (d @ ''-'' @ str_int sl) (val slack)
             \<in> set (fst (solve_timetable_debug solve rooms batches subjs tchrs fixed_classes mc)))"
  proof (intro ballI)
    fix bt d sl assume "bt \<in> set batches" "d \<in> set days" "sl \<in> set slots"
    from ir [OF batch_in_all_softs [OF this]]
    show "\<exists>slack. soft_instance m x sv
          [(bt, subj, d, sl, r). (subj, info) \<leftarrow> subjs, batch info = bt, r \<leftarrow> rooms] 0 1
          (\<lambda>lhs. Le (map V lhs) [C 1, V slack])
          ''BatchClash'' bt (d @ ''-'' @ str_int sl) slack \<and>
          (0 < val slack \<longrightarrow> Violation ''BatchClash'' bt (d @ ''-'' @ str_int sl) (val slack)
             \<in> set (fst (solve_timetable_debug solve rooms batches subjs tchrs fixed_classes mc)))"
      by (simp add: batch_clash_def)
  qed
  have 8: "\<forall>r \<in> set rooms. \<forall>d \<in> set days. \<forall>sl \<in> set slots.
        \<exists>slack. soft_instance m x sv
          [(batch info, subj, d, sl, r). (subj, info) \<leftarrow> subjs] 0 1
          (\<lambda>lhs. Le (map V lhs) [C 1, V slack])
          ''RoomClash'' r (d @ ''-'' @ str_int sl) slack \<and>
          (0 < val slack \<longrightarrow> Violation ''RoomClash'' r (d @ ''-'' @ str_int sl) (val slack)
             \<in> set (fst (solve_timetable_debug solve rooms batches subjs tchrs fixed_classes mc)))"
  proof (intro ballI)
    fix r d sl assume "r \<in> set rooms" "d \<in> set days" "sl \<in> set slots"
    from ir [OF room_in_all_softs [OF this]]
    show "\<exists>slack. soft_instance m x sv
          [(batch info, subj, d, sl, r). (subj, info) \<leftarrow> subjs] 0 1
          (\<lambda>lhs. Le (map V lhs) [C 1, V slack])
          ''RoomClash'' r (d @ ''-'' @ str_int sl) slack \<and>
          (0 < val slack \<longrightarrow> Violation ''RoomClash'' r (d @ ''-'' @ str_int sl) (val slack)
             \<in> set (fst (solve_timetable_debug solve rooms batches subjs tchrs fixed_classes mc)))"
      by (simp add: room_clash_def)
  qed
  have 9: "\<forall>(t, tinfo) \<in> set tchrs.
        (\<exists>slack. soft_instance m x sv
           [(batch info, subj, d, s, r).
              (subj, info) \<leftarrow> subjs, teacher info = t, d \<leftarrow> days, s \<leftarrow> slots, r \<leftarrow> rooms] 0 20
           (\<lambda>lhs. Le (map V lhs) [C (max_load tinfo), V slack])
           ''TeacherWeek'' t ''All'' slack \<and>
           (0 < val slack \<longrightarrow> Violation ''TeacherWeek'' t ''All'' (val slack)
              \<in> set (fst (solve_timetable_debug solve rooms batches subjs tchrs fixed_classes mc)))) \<and>
        (\<forall>d \<in> set days.
           \<exists>slack. soft_instance m x sv
             [(batch info, subj, d, s, r).
                (subj, info) \<leftarrow> subjs, teacher info = t, s \<leftarrow> slots, r \<leftarrow> rooms] 0 5
             (\<lambda>lhs. Le (map V lhs) [C mc, V slack])
             ''TeacherDay'' t d slack \<and>
             (0 < val slack \<longrightarrow> Violation ''TeacherDay'' t d (val slack)
                \<in> set (fst (solve_timetable_debug solve rooms batches subjs tchrs fixed_classes mc))))"
  proof (intro ballI)
    fix tt assume tt: "tt \<in> set tchrs"
    obtain t tinfo where eq: "tt = (t, tinfo)" by (cases tt)
    from ir [OF week_in_all_softs [OF tt [unfolded eq]]]
    have w: "\<exists>slack. soft_instance m x sv
           [(batch info, subj, d, s, r).
              (subj, info) \<leftarrow> subjs, teacher info = t, d \<leftarrow> days, s \<leftarrow> slots, r \<leftarrow> rooms] 0 20
           (\<lambda>lhs. Le (map V lhs) [C (max_load tinfo), V slack])
           ''TeacherWeek'' t ''All'' slack \<and>
           (0 < val slack \<longrightarrow> Violation ''TeacherWeek'' t ''All'' (val slack)
              \<in> set (fst (solve_timetable_debug solve rooms batches subjs tchrs fixed_classes mc)))"
      by (simp add: teacher_week_def)
    have d: "\<exists>slack. soft_instance m x sv
             [(batch info, subj, d, s, r).
                (subj, info) \<leftarrow> subjs, teacher info = t, s \<leftarrow> slots, r \<leftarrow> rooms] 0 5
             (\<lambda>lhs. Le (map V lhs) [C mc, V slack])
             ''TeacherDay'' t d slack \<and>
             (0 < val slack \<longrightarrow> Violation ''TeacherDay'' t d (val slack)
                \<in> set (fst (solve_timetable_debug solve rooms batches subjs tchrs fixed_classes mc)))"
      if "d \<in> set days" for d
      using ir [OF day_in_all_softs [OF tt [unfolded eq] that]] by (simp add: teacher_day_def)
    from w d show "case tt of (t, tinfo) \<Rightarrow>
        (\<exists>slack. soft_instance m x sv
           [(batch info, subj, d, s, r).
              (subj, info) \<leftarrow> subjs, teacher info = t, d \<leftarrow> days, s \<leftarrow> slots, r \<leftarrow> rooms] 0 20
           (\<lambda>lhs. Le (map V lhs) [C (max_load tinfo), V slack])
           ''TeacherWeek'' t ''All'' slack \<and>
           (0 < val slack \<longrightarrow> Violation ''TeacherWeek'' t ''All'' (val slack)
              \<in> set (fst (solve_timetable_debug solve rooms batches subjs tchrs fixed_classes mc)))) \<and>
        (\<forall>d \<in> set days.
           \<exists>slack. soft_instance m x sv
             [(batch info, subj, d, s, r).
                (subj, info) \<leftarrow> subjs, teacher info = t, s \<leftarrow> slots, r \<leftarrow> rooms] 0 5
             (\<lambda>lhs. Le (map V lhs) [C mc, V slack])
             ''TeacherDay'' t d slack \<and>
             (0 < val slack \<longrightarrow> Violation ''TeacherDay'' t d (val slack)
                \<in> set (fst (solve_timetable_debug solve rooms batches subjs tchrs fixed_classes mc))))"
      unfolding eq prod.case by blast
  qed
  have 10: "\<forall>(bt, subj, d, sl, r) \<in> set (fixed_list fixed_classes).
        \<exists>slack. soft_instance m x sv [(bt, subj, d, sl, r)] 0 1
          (\<lambda>lhs. Eq (map V lhs @ [V slack]) [C 1])
          ''FixedClass'' bt (subj @ ''-'' @ d @ ''-'' @ str_int sl) slack \<and>
          (0 < val slack \<longrightarrow>
             Violation ''FixedClass'' bt (subj @ ''-'' @ d @ ''-'' @ str_int sl) (val slack)
               \<in> set (fst (solve_timetable_debug solve rooms batches subjs tchrs fixed_classes mc)))"
  proof (intro ballI)
    fix fk assume fk: "fk \<in> set (fixed_list fixed_classes)"
    obtain bt subj d sl r where eq: "fk = (bt, subj, d, sl, r)" by (cases fk)
    from ir [OF fixed_in_all_softs [OF fk]]
    show "case fk of (bt, subj, d, sl, r) \<Rightarrow>
        \<exists>slack. soft_instance m x sv [(bt, subj, d, sl, r)] 0 1
          (\<lambda>lhs. Eq (map V lhs @ [V slack]) [C 1])
          ''FixedClass'' bt (subj @ ''-'' @ d @ ''-'' @ str_int sl) slack \<and>
          (0 < val slack \<longrightarrow>
             Violation ''FixedClass'' bt (subj @ ''-'' @ d @ ''-'' @ str_int sl) (val slack)
               \<in> set (fst (solve_timetable_debug solve rooms batches subjs tchrs fixed_classes mc)))"
      unfolding eq by (simp add: fixed_class_def)
  qed
  show ?thesis
    by (intro conjI) (rule 1, rule 2, rule 3, rule 4, rule 5, rule 6, rule 7, rule 8, rule 9, rule 10)
qed



lemma ref_model_satisfied:
  "case build_model [''R1''] [''B1''] ref_subjects ref_teachers ref_fixed 5 of
     Inl e \<Rightarrow> False
   | Inr (m, x, sv) \<Rightarrow> satisfies m ref_assignment"
  by code_simp

lemma ref_model_built:
  "\<exists>m x sv. build_model [''R1''] [''B1''] ref_subjects ref_teachers ref_fixed 5 = Inr (m, x, sv) \<and>
     satisfies m ref_assignment"
  using ref_model_satisfied by (auto split: sum.splits)

theorem c5_witness:
  "solve_timetable_debug (\<lambda>m. (UNKNOWN, \<lambda>v. 0)) [''R1''] [''B1''] ref_subjects ref_teachers ref_fixed 5
     = ([Still_no_solution], Inr None)"
proof -
  from ref_model_built obtain m x sv where
    b: "build_model [''R1''] [''B1''] ref_subjects ref_teachers ref_fixed 5 = Inr (m, x, sv)"
    by blast
  show ?thesis
    by (rule c5_no_solution_returns_none [OF b]) simp_all
qed

theorem c10_witness:
  "\<exists>m x sv lhs.
     build_model [''R1''] [''B1''] ref_subjects ref_teachers ref_fixed 5 = Inr (m, x, sv) \<and>
     satisfies m ref_assignment \<and>
     lookup_all x [(''B1'', ''Math'', d, s, r). d \<leftarrow> days, s \<leftarrow> slots, r \<leftarrow> [''R1'']] = Inr lhs \<and>
     sum_list (map ref_assignment lhs) \<le> 6 \<and>
     int (length (filter (\<lambda>v. ref_assignment v \<noteq> 0) lhs)) \<le> 6"
proof -
  from ref_model_built obtain m x sv where
    b: "build_model [''R1''] [''B1''] ref_subjects ref_teachers ref_fixed 5 = Inr (m, x, sv)"
    and s: "satisfies m ref_assignment"
    by blast
  have si: "(''Math'', \<lparr>sessions_per_week = 6, teacher = ''T1'', batch = ''B1''\<rparr>) \<in> set ref_subjects"
    by (simp add: ref_subjects_def)
  from c10_never_over_scheduled [OF b s si] b s show ?thesis by simp
qed

theorem c8_witness:
  "\<exists>m x sv slack lhs.
     build_model [''R1''] [''B1''] ref_subjects ref_teachers ref_fixed 5 = Inr (m, x, sv) \<and>
     satisfies m ref_assignment \<and>
     (''BatchClash'', ''B1'', ''Mon-1'', slack) \<in> set sv \<and>
     lookup_all x [(''B1'', subj, ''Mon'', 1, r).
                    (subj, info) \<leftarrow> ref_subjects, batch info = ''B1'', r \<leftarrow> [''R1'']] = Inr lhs \<and>
     int (length (filter (\<lambda>v. ref_assignment v \<noteq> 0) lhs)) \<le> 1 + ref_assignment slack \<and>
     0 \<le> ref_assignment slack \<and> ref_assignment slack \<le> 1"
proof -
  from ref_model_built obtain m x sv where
    b: "build_model [''R1''] [''B1''] ref_subjects ref_teachers ref_fixed 5 = Inr (m, x, sv)"
    and s: "satisfies m ref_assignment"
    by blast
  have t: "''B1'' \<in> set [''B1'']" "''Mon'' \<in> set days" "1 \<in> set slots"
    by (simp_all add: days_def slots_def)
  have n: "str_int 1 = ''1''" by code_simp
  from c8_batch_clash [OF b s t] b s show ?thesis by (simp add: n) blast
qed

lemma over_model_satisfied:
  "case build_model [''R1''] [''B1''] over_subjects ref_teachers None 5 of
     Inl e \<Rightarrow> False
   | Inr (m, x, sv) \<Rightarrow>
       satisfies m over_assignment \<and>
       report over_assignment sv =
         [Constraint_check, Violation ''Subject'' ''Math'' ''B1'' 1,
          Violation ''TeacherWeek'' ''T1'' ''All'' 13]"
  by code_simp

lemma over_model_built:
  "\<exists>m x sv. build_model [''R1''] [''B1''] over_subjects ref_teachers None 5 = Inr (m, x, sv) \<and>
     satisfies m over_assignment \<and>
     report over_assignment sv =
       [Constraint_check, Violation ''Subject'' ''Math'' ''B1'' 1,
        Violation ''TeacherWeek'' ''T1'' ''All'' 13]"
  using over_model_satisfied by (auto split: sum.splits)

theorem c7_witness:
  "\<exists>m x sv. build_model [''R1''] [''B1''] ref_subjects ref_teachers ref_fixed 5 = Inr (m, x, sv) \<and>
     objective m = MinimizeObj (map V (map slack_of sv)) \<and>
     map slack_of sv = [length (var_keys [''R1''] ref_subjects) ..< length (variables m)] \<and>
     eval_sum ref_assignment (map V (map slack_of sv))
       = sum_list (map (\<lambda>e. ref_assignment (slack_of e)) sv) \<and>
     (\<exists>slack. soft_instance m x sv [(''B1'', ''Math'', ''Mon'', 1, ''R1'')] 0 1
        (\<lambda>lhs. Eq (map V lhs @ [V slack]) [C 1])
        ''FixedClass'' ''B1'' (''Math'' @ ''-'' @ ''Mon'' @ ''-'' @ str_int 1) slack \<and>
        objective_coeff m slack = 1) \<and>
     (\<exists>slack. soft_instance m x sv
        [(batch info, subj, d, s, r).
           (subj, info) \<leftarrow> ref_subjects, teacher info = ''T1'', d \<leftarrow> days, s \<leftarrow> slots, r \<leftarrow> [''R1'']]
        0 20 (\<lambda>lhs. Le (map V lhs) [C 12, V slack]) ''TeacherWeek'' ''T1'' ''All'' slack \<and>
        objective_coeff m slack = 1)"
proof -
  from ref_model_built obtain m x sv where
    b: "build_model [''R1''] [''B1''] ref_subjects ref_teachers ref_fixed 5 = Inr (m, x, sv)"
    by blast
  note t = c7_objective_unweighted_slack_sum [OF b]
  have fx: "(''B1'', ''Math'', ''Mon'', 1, ''R1'') \<in> set (fixed_list ref_fixed)"
    by (simp add: fixed_list_def ref_fixed_def)
  have tc: "(''T1'', \<lparr>max_load = 12\<rparr>) \<in> set ref_teachers"
    by (simp add: ref_teachers_def)
  note f = t [THEN conjunct2, THEN conjunct2, THEN conjunct2, THEN conjunct2, THEN conjunct2,
      THEN conjunct2, THEN conjunct2, THEN conjunct2, THEN conjunct2, THEN bspec, OF fx,
      unfolded prod.case]
  note w = t [THEN conjunct2, THEN conjunct2, THEN conjunct2, THEN conjunct2, THEN conjunct2,
      THEN conjunct2, THEN conjunct2, THEN conjunct2, THEN conjunct1, THEN bspec, OF tc,
      unfolded prod.case, THEN conjunct1]
  note o1 = t [THEN conjunct1]
  note o2 = t [THEN conjunct2, THEN conjunct1]
  note o3 = t [THEN conjunct2, THEN conjunct2, THEN conjunct1, THEN spec, of ref_assignment]
  have w': "\<exists>slack. soft_instance m x sv
        [(batch info, subj, d, s, r).
           (subj, info) \<leftarrow> ref_subjects, teacher info = ''T1'', d \<leftarrow> days, s \<leftarrow> slots, r \<leftarrow> [''R1'']]
        0 20 (\<lambda>lhs. Le (map V lhs) [C 12, V slack]) ''TeacherWeek'' ''T1'' ''All'' slack \<and>
        objective_coeff m slack = 1"
    using w by simp
  from f obtain s1 where f1: "soft_instance m x sv [(''B1'', ''Math'', ''Mon'', 1, ''R1'')] 0 1
        (\<lambda>lhs. Eq (map V lhs @ [V s1]) [C 1])
        ''FixedClass'' ''B1'' (''Math'' @ ''-'' @ ''Mon'' @ ''-'' @ str_int 1) s1 \<and>
        objective_coeff m s1 = 1"
    by (rule exE)
  from b o1 o2 o3 f1 w' show ?thesis by blast
qed


theorem c6_witness:
  "\<exists>m x sv.
     build_model [''R1''] [''B1''] over_subjects ref_teachers None 5 = Inr (m, x, sv) \<and>
     fst (solve_timetable_debug (\<lambda>m. (FEASIBLE, over_assignment))
            [''R1''] [''B1''] over_subjects ref_teachers None 5) =
       Constraint_check #
       map (\<lambda>(k, w, wh, s). Violation k w wh (over_assignment s))
         (filter (\<lambda>(k, w, wh, s). 0 < over_assignment s) sv) \<and>
     map slack_of sv = [length (var_keys [''R1''] over_subjects) ..< length (variables m)] \<and>
     length sv = 57 \<and> length (constraints m) = 57 \<and>
     (\<exists>slack. soft_instance m x sv
        [(''B1'', ''Math'', d, s, r). d \<leftarrow> days, s \<leftarrow> slots, r \<leftarrow> [''R1'']] 0 10
        (\<lambda>lhs. Eq (map V lhs @ [V slack]) [C 26]) ''Subject'' ''Math'' ''B1'' slack \<and>
        0 < over_assignment slack \<and>
        Violation ''Subject'' ''Math'' ''B1'' (over_assignment slack)
          \<in> set (fst (solve_timetable_debug (\<lambda>m. (FEASIBLE, over_assignment))
                    [''R1''] [''B1''] over_subjects ref_teachers None 5)))"
proof -
  from over_model_built obtain m x sv where
    b: "build_model [''R1''] [''B1''] over_subjects ref_teachers None 5 = Inr (m, x, sv)"
    and s: "satisfies m over_assignment"
    by blast
  note t = c6_report_complete
    [where solve = "\<lambda>m. (FEASIBLE, over_assignment)" and st = FEASIBLE and val = over_assignment,
      OF b refl disjI2 [OF refl]]
  have si: "(''Math'', \<lparr>sessions_per_week = 26, teacher = ''T1'', batch = ''B1''\<rparr>) \<in> set over_subjects"
    by (simp add: over_subjects_def)
  note o1 = t [THEN conjunct1]
  note o2 = t [THEN conjunct2, THEN conjunct1]
  have o3: "length sv = 57"
    using t [THEN conjunct2, THEN conjunct2, THEN conjunct1]
    by (simp add: over_subjects_def ref_teachers_def fixed_list_def)
  have o4: "length (constraints m) = 57"
    using t [THEN conjunct2, THEN conjunct2, THEN conjunct2, THEN conjunct1] o3 by simp
  note o6 = t [THEN conjunct2, THEN conjunct2, THEN conjunct2, THEN conjunct2, THEN conjunct2,
      THEN conjunct1, THEN bspec, OF si, unfolded prod.case]
  have "\<exists>slack. soft_instance m x sv
        [(''B1'', ''Math'', d, s, r). d \<leftarrow> days, s \<leftarrow> slots, r \<leftarrow> [''R1'']] 0 10
        (\<lambda>lhs. Eq (map V lhs @ [V slack]) [C 26]) ''Subject'' ''Math'' ''B1'' slack \<and>
        (0 < over_assignment slack \<longrightarrow>
        Violation ''Subject'' ''Math'' ''B1'' (over_assignment slack)
          \<in> set (fst (solve_timetable_debug (\<lambda>m. (FEASIBLE, over_assignment))
                    [''R1''] [''B1''] over_subjects ref_teachers None 5)))"
    using o6 by simp
  then obtain slack where
    i: "soft_instance m x sv
        [(''B1'', ''Math'', d, s, r). d \<leftarrow> days, s \<leftarrow> slots, r \<leftarrow> [''R1'']] 0 10
        (\<lambda>lhs. Eq (map V lhs @ [V slack]) [C 26]) ''Subject'' ''Math'' ''B1'' slack"
    and r: "0 < over_assignment slack \<Longrightarrow>
        Violation ''Subject'' ''Math'' ''B1'' (over_assignment slack)
          \<in> set (fst (solve_timetable_debug (\<lambda>m. (FEASIBLE, over_assignment))
                    [''R1''] [''B1''] over_subjects ref_teachers None 5))"
    by blast
  from i obtain lhs where
    l: "lookup_all x [(''B1'', ''Math'', d, s, r). d \<leftarrow> days, s \<leftarrow> slots, r \<leftarrow> [''R1'']] = Inr lhs"
    and c: "Eq (map V lhs @ [V slack]) [C 26] \<in> set (constraints m)"
    unfolding soft_instance_def by blast
  from satisfies_constr [OF s c] have e: "sum_list (map over_assignment lhs) + over_assignment slack = 26"
    by simp
  have "length lhs = 25 * length [''R1'']"
    using lookup_all_length [OF l] by (simp only: length_subject_keys)
  with sum_bool_bounds [OF lhs_bool [OF b s l]] have "sum_list (map over_assignment lhs) \<le> 25"
    by simp
  with e have p: "0 < over_assignment slack" by linarith
  from b o1 o2 o3 o4 i p r [OF p] show ?thesis by blast
qed

text \<open>
  The claim's description of the lines fails: the violation line of a subject-weekly
  slack carries the subject's batch where the claim expects a time context.
\<close>

theorem c6_counterexample:
  "fst (solve_timetable_debug (\<lambda>m. (FEASIBLE, over_assignment))
          [''R1''] [''B1''] over_subjects ref_teachers None 5) =
     [Constraint_check, Violation ''Subject'' ''Math'' ''B1'' 1,
      Violation ''TeacherWeek'' ''T1'' ''All'' 13] \<and>
   \<not> is_time_context ''B1''"
proof -
  from over_model_built obtain m x sv where
    b: "build_model [''R1''] [''B1''] over_subjects ref_teachers None 5 = Inr (m, x, sv)"
    and r: "report over_assignment sv =
       [Constraint_check, Violation ''Subject'' ''Math'' ''B1'' 1,
        Violation ''TeacherWeek'' ''T1'' ''All'' 13]"
    by blast
  have 1: "fst (solve_timetable_debug (\<lambda>m. (FEASIBLE, over_assignment))
          [''R1''] [''B1''] over_subjects ref_teachers None 5) = report over_assignment sv"
    by (rule printed_ok [where st = FEASIBLE, OF b]) simp_all
  have 2: "\<not> is_time_context ''B1''" by code_simp
  from 1 2 r show ?thesis by simp
qed

theorem c4_witness:
  "\<exists>m x sv slack lhs.
     build_model [''R1''] [''B1''] ref_subjects ref_teachers ref_fixed 5 = Inr (m, x, sv) \<and>
     satisfies m ref_assignment \<and>
     filter (\<lambda>e. fst e = ''Subject'' \<and> fst (snd e) = ''Physics'') sv
       = [(''Subject'', ''Physics'', ''B1'', slack)] \<and>
     lb (variables m ! slack) = 0 \<and> ub (variables m ! slack) = 10 \<and>
     lookup_all x [(''B1'', ''Physics'', d, s, r). d \<leftarrow> days, s \<leftarrow> slots, r \<leftarrow> [''R1'']] = Inr lhs \<and>
     Eq (map V lhs @ [V slack]) [C 6] \<in> set (constraints m) \<and>
     sum_list (map ref_assignment lhs) + ref_assignment slack = 6 \<and>
     0 \<le> ref_assignment slack \<and> ref_assignment slack \<le> 10"
proof -
  from ref_model_built obtain m x sv where
    b: "build_model [''R1''] [''B1''] ref_subjects ref_teachers ref_fixed 5 = Inr (m, x, sv)"
    and s: "satisfies m ref_assignment"
    by blast
  have d: "distinct (map fst ref_subjects)" by (simp add: ref_subjects_def)
  have si: "(''Physics'', \<lparr>sessions_per_week = 6, teacher = ''T1'', batch = ''B1''\<rparr>)
      \<in> set ref_subjects"
    by (simp add: ref_subjects_def)
  from c4_subject_weekly_constraint [OF b d si] obtain slack lhs where
    "filter (\<lambda>e. fst e = ''Subject'' \<and> fst (snd e) = ''Physics'') sv
       = [(''Subject'', ''Physics'', ''B1'', slack)]"
    "lb (variables m ! slack) = 0" "ub (variables m ! slack) = 10"
    "lookup_all x [(''B1'', ''Physics'', d, s, r). d \<leftarrow> days, s \<leftarrow> slots, r \<leftarrow> [''R1'']] = Inr lhs"
    "Eq (map V lhs @ [V slack]) [C 6] \<in> set (constraints m)"
    "\<forall>a. satisfies m a \<longrightarrow>
        sum_list (map a lhs) + a slack = 6 \<and> 0 \<le> a slack \<and> a slack \<le> 10"
    by auto
  with b s show ?thesis by blast
qed

end
